theory Spec2Isabelle
  imports Complex_Main
begin

section \<open>Device monitoring agent: data model\<close>

text \<open>
  The development follows \<^verbatim>\<open>device-monitoring-agent/agent.py\<close>. Python \<^verbatim>\<open>str\<close> is
  \<^typ>\<open>string\<close> (ASCII text), Python numbers are rationals (every finite float is one;
  infinities and NaN are not represented, and arithmetic is exact where the source rounds
  to the nearest double), \<^verbatim>\<open>Optional[str]\<close> is \<^typ>\<open>string option\<close>.
  A \<^verbatim>\<open>dict\<close> is an association list in insertion order whose keys are distinct.
\<close>

type_synonym 'v pydict = "(string \<times> 'v) list"

definition dict_keys :: "'v pydict \<Rightarrow> string list" where
  "dict_keys d = map fst d"

definition dict_contains :: "'v pydict \<Rightarrow> string \<Rightarrow> bool" where
  \<comment> \<open>\<^verbatim>\<open>k in d\<close>\<close>
  "dict_contains d k = (k \<in> set (map fst d))"

definition dict_get :: "'v pydict \<Rightarrow> string \<Rightarrow> 'v \<Rightarrow> 'v" where
  \<comment> \<open>\<^verbatim>\<open>d.get(k, default)\<close>\<close>
  "dict_get d k dflt = (case map_of d k of None \<Rightarrow> dflt | Some v \<Rightarrow> v)"

fun dict_set :: "'v pydict \<Rightarrow> string \<Rightarrow> 'v \<Rightarrow> 'v pydict" where
  \<comment> \<open>\<^verbatim>\<open>d[k] = v\<close>: an existing key keeps its position, a new key goes last.\<close>
  "dict_set [] k v = [(k, v)]"
| "dict_set ((k', v') # d) k v = (if k' = k then (k', v) # d else (k', v') # dict_set d k v)"

definition dict_update :: "'v pydict \<Rightarrow> 'v pydict \<Rightarrow> 'v pydict" where
  \<comment> \<open>\<^verbatim>\<open>d.update(other)\<close>: every item of \<^verbatim>\<open>other\<close>, in its order, is stored into \<^verbatim>\<open>d\<close>.\<close>
  "dict_update d other = foldl (\<lambda>acc (k, v). dict_set acc k v) d other"

definition truthy :: "string option \<Rightarrow> bool" where
  \<comment> \<open>\<^verbatim>\<open>if error:\<close> for an optional string: \<^verbatim>\<open>None\<close> and the empty string are false.\<close>
  "truthy e = (case e of None \<Rightarrow> False | Some s \<Rightarrow> s \<noteq> [])"

text \<open>
  The dataclass \<^verbatim>\<open>DeviceConfig\<close>; its fields \<^verbatim>\<open>id\<close>, \<^verbatim>\<open>name\<close> and \<^verbatim>\<open>type\<close> are
  \<open>cfg_id\<close>, \<open>cfg_name\<close> and \<open>cfg_type\<close> here. The two threshold maps hold what
  \<^verbatim>\<open>__post_init__\<close> leaves in them.
\<close>

record DeviceConfig =
  cfg_id :: string
  cfg_name :: string
  cfg_type :: string
  ip_address :: string
  location :: string
  monitoring_methods :: "string list"
  snmp_community :: string
  snmp_port :: int
  snmp_version :: string
  http_endpoint :: "string option"
  http_auth :: "string pydict option"
  poll_interval :: int
  timeout :: int
  enabled :: bool
  critical_thresholds :: "rat pydict"
  warning_thresholds :: "rat pydict"

definition default_critical_thresholds :: "rat pydict" where
  "default_critical_thresholds =
     [(''cpu_usage'', 90), (''memory_usage'', 90), (''response_time'', 5000)]"

definition default_warning_thresholds :: "rat pydict" where
  "default_warning_thresholds =
     [(''cpu_usage'', 70), (''memory_usage'', 75), (''response_time'', 2000)]"

definition post_init :: "rat pydict option \<Rightarrow> rat pydict option \<Rightarrow> DeviceConfig \<Rightarrow> DeviceConfig" where
  \<comment> \<open>\<^verbatim>\<open>DeviceConfig.__post_init__\<close>: a threshold map that was not given gets its default.\<close>
  "post_init crit warn c =
     c\<lparr>critical_thresholds := (case crit of None \<Rightarrow> default_critical_thresholds | Some d \<Rightarrow> d),
       warning_thresholds := (case warn of None \<Rightarrow> default_warning_thresholds | Some d \<Rightarrow> d)\<rparr>"

text \<open>
  The three devices that \<^verbatim>\<open>create_default_config\<close> writes and
  \<^verbatim>\<open>load_configuration\<close> reads back (no thresholds are read from the file, so
  \<^verbatim>\<open>__post_init__\<close> supplies the defaults).
\<close>

definition device_router_01 :: DeviceConfig where
  "device_router_01 = post_init None None
     \<lparr>cfg_id = ''device_router_01'', cfg_name = ''Main Router'', cfg_type = ''router'',
      ip_address = ''192.168.1.1'', location = ''Server Room A'',
      monitoring_methods = [''ping'', ''snmp''], snmp_community = ''public'', snmp_port = 161,
      snmp_version = ''2c'', http_endpoint = None, http_auth = None, poll_interval = 30,
      timeout = 10, enabled = True, critical_thresholds = [], warning_thresholds = []\<rparr>"

definition device_switch_01 :: DeviceConfig where
  "device_switch_01 = post_init None None
     \<lparr>cfg_id = ''device_switch_01'', cfg_name = ''Core Switch'', cfg_type = ''switch'',
      ip_address = ''192.168.1.10'', location = ''Server Room A'',
      monitoring_methods = [''ping'', ''snmp''], snmp_community = ''public'', snmp_port = 161,
      snmp_version = ''2c'', http_endpoint = None, http_auth = None, poll_interval = 30,
      timeout = 10, enabled = True, critical_thresholds = [], warning_thresholds = []\<rparr>"

definition device_firewall_01 :: DeviceConfig where
  "device_firewall_01 = post_init None None
     \<lparr>cfg_id = ''device_firewall_01'', cfg_name = ''Edge Firewall'', cfg_type = ''firewall'',
      ip_address = ''192.168.1.254'', location = ''DMZ'',
      monitoring_methods = [''ping'', ''http''], snmp_community = ''public'', snmp_port = 161,
      snmp_version = ''2c'', http_endpoint = Some ''http://192.168.1.254/api/status'',
      http_auth = None, poll_interval = 30,
      timeout = 10, enabled = True, critical_thresholds = [], warning_thresholds = []\<rparr>"

record DeviceMetrics =
  device_id :: string
  timestamp :: rat
  status :: string
  metrics :: "rat pydict"
  response_time :: rat
  last_error :: "string option"
  monitoring_method :: string

record DeviceMonitor =
  config :: DeviceConfig
  last_status :: string
  consecutive_failures :: int
  max_failures :: int
  last_metrics :: "rat pydict"

definition DeviceMonitor_init :: "DeviceConfig \<Rightarrow> DeviceMonitor" where
  "DeviceMonitor_init c =
     \<lparr>config = c, last_status = ''unknown'', consecutive_failures = 0, max_failures = 3,
      last_metrics = []\<rparr>"

section \<open>Status classifier\<close>

fun threshold_breach :: "rat pydict \<Rightarrow> rat pydict \<Rightarrow> bool" where
  \<comment> \<open>One of the two \<^verbatim>\<open>for metric, value in metrics.items()\<close> loops of
      \<^verbatim>\<open>determine_status\<close>: True when the loop returns, False when it runs to its end.\<close>
  "threshold_breach thresholds [] = False"
| "threshold_breach thresholds ((metric, v) # rest) =
     (case map_of thresholds metric of
        None \<Rightarrow> threshold_breach thresholds rest
      | Some t \<Rightarrow> if v \<ge> t then True else threshold_breach thresholds rest)"

definition determine_status ::
  "DeviceMonitor \<Rightarrow> rat pydict \<Rightarrow> rat \<Rightarrow> string option \<Rightarrow> string \<times> DeviceMonitor" where
  "determine_status self ms rt error =
     (if truthy error then
        (let self1 = self\<lparr>consecutive_failures := consecutive_failures self + 1\<rparr>
         in if consecutive_failures self1 \<ge> max_failures self1 then (''offline'', self1)
            else (''warning'', self1))
      else
        (let self1 = self\<lparr>consecutive_failures := 0\<rparr>
         in if threshold_breach (critical_thresholds (config self1)) ms then (''critical'', self1)
            else if threshold_breach (warning_thresholds (config self1)) ms then (''warning'', self1)
            else if rt \<ge> dict_get (critical_thresholds (config self1)) ''response_time'' 5000
              then (''critical'', self1)
            else if rt \<ge> dict_get (warning_thresholds (config self1)) ''response_time'' 2000
              then (''warning'', self1)
            else (''online'', self1)))"

section \<open>Result aggregator\<close>

definition status_priority :: "int pydict" where
  "status_priority = [(''offline'', 0), (''critical'', 1), (''warning'', 2), (''online'', 3)]"

definition priority_of :: "DeviceMetrics \<Rightarrow> int" where
  \<comment> \<open>The key function \<^verbatim>\<open>lambda r: status_priority.get(r.status, 3)\<close>.\<close>
  "priority_of r = dict_get status_priority (status r) 3"

fun py_min_key :: "('a \<Rightarrow> int) \<Rightarrow> 'a \<Rightarrow> 'a list \<Rightarrow> 'a" where
  \<comment> \<open>\<^verbatim>\<open>min(iterable, key=f)\<close> on a non-empty iterable, first element and rest: the
      running minimum is replaced only by a strictly smaller key.\<close>
  "py_min_key f best [] = best"
| "py_min_key f best (x # xs) = py_min_key f (if f x < f best then x else best) xs"

fun py_join :: "string \<Rightarrow> string list \<Rightarrow> string" where
  \<comment> \<open>\<^verbatim>\<open>sep.join(parts)\<close>\<close>
  "py_join sep [] = []"
| "py_join sep [x] = x"
| "py_join sep (x # y # ys) = x @ sep @ py_join sep (y # ys)"

definition merge_metrics :: "DeviceMetrics list \<Rightarrow> rat pydict" where
  \<comment> \<open>\<^verbatim>\<open>all_metrics = {}\<close>, then \<^verbatim>\<open>all_metrics.update(result.metrics)\<close> for each result.\<close>
  "merge_metrics results = foldl (\<lambda>acc r. dict_update acc (metrics r)) [] results"

definition truthy_errors :: "DeviceMetrics list \<Rightarrow> string list" where
  \<comment> \<open>\<^verbatim>\<open>[r.last_error for r in results if r.last_error]\<close>\<close>
  "truthy_errors results =
     concat (map (\<lambda>r. case last_error r of None \<Rightarrow> [] | Some e \<Rightarrow> if e = [] then [] else [e]) results)"

definition worst_status :: "DeviceMetrics \<Rightarrow> DeviceMetrics list \<Rightarrow> DeviceMetrics" where
  \<comment> \<open>The sample that \<^verbatim>\<open>min(results, key=lambda r: status_priority.get(r.status, 3))\<close>
      returns, for \<^verbatim>\<open>results\<close> made of a first sample and the rest.\<close>
  "worst_status first rest = py_min_key priority_of first rest"

definition combine_monitoring_results :: "rat \<Rightarrow> DeviceMetrics list \<Rightarrow> DeviceMetrics option" where
  \<comment> \<open>The first argument is the value of \<^verbatim>\<open>datetime.now()\<close> at the call.\<close>
  "combine_monitoring_results now results =
     (case results of
        [] \<Rightarrow> None
      | combined # rest \<Rightarrow>
          (let all_metrics = merge_metrics results;
               worst = worst_status combined rest;
               avg_response_time = sum_list (map response_time results) / of_nat (length results);
               errors = truthy_errors results;
               combined_error = (if errors \<noteq> [] then Some (py_join ''; '' errors) else None)
           in Some \<lparr>device_id = device_id combined, timestamp = now,
                     status = status worst, metrics = all_metrics,
                     response_time = avg_response_time, last_error = combined_error,
                     monitoring_method = ''combined''\<rparr>))"

section \<open>Python string operations\<close>

text \<open>
  The \<^verbatim>\<open>str\<close> methods the probes use, on ASCII text. \<open>split_sep\<close> and \<open>replace\<close> are
  \<^verbatim>\<open>s.split(sep)\<close> and \<^verbatim>\<open>s.replace(old, new)\<close> for a non-empty \<open>sep\<close> and \<open>old\<close>
  (the source only passes literals): they scan left to right and skip over each match.
  \<open>split_ws\<close> is \<^verbatim>\<open>s.split()\<close>, \<open>contains sub s\<close> is \<^verbatim>\<open>sub in s\<close>.
  \<open>py_float\<close> is \<^verbatim>\<open>float(s)\<close> on the decimal syntax (sign, digits with underscores
  between them, fraction, exponent, surrounding C whitespace), \<open>None\<close> standing for
  \<^verbatim>\<open>ValueError\<close>. Its value is the exact decimal, where \<^verbatim>\<open>float\<close> rounds to the
  nearest double (and gives an infinity beyond the range of the doubles); the spellings
  of infinity and NaN, which have no rational value, are not modelled and read as
  \<open>None\<close>.
\<close>

definition is_space :: "char \<Rightarrow> bool" where
  "is_space c = (c \<in> set [CHR 0x09, CHR 0x0A, CHR 0x0B, CHR 0x0C, CHR 0x0D,
                             CHR 0x1C, CHR 0x1D, CHR 0x1E, CHR 0x1F, CHR 0x20])"

definition to_lower :: "char \<Rightarrow> char" where
  "to_lower c = (case map_of (zip ''ABCDEFGHIJKLMNOPQRSTUVWXYZ'' ''abcdefghijklmnopqrstuvwxyz'') c of
                   None \<Rightarrow> c | Some l \<Rightarrow> l)"

definition lower :: "string \<Rightarrow> string" where
  "lower s = map to_lower s"

definition strip :: "string \<Rightarrow> string" where
  "strip s = rev (dropWhile is_space (rev (dropWhile is_space s)))"

fun starts_with :: "string \<Rightarrow> string \<Rightarrow> bool" where
  "starts_with [] s = True"
| "starts_with (p # ps) [] = False"
| "starts_with (p # ps) (c # cs) = (p = c \<and> starts_with ps cs)"

fun contains :: "string \<Rightarrow> string \<Rightarrow> bool" where
  "contains sub [] = (sub = [])"
| "contains sub (c # cs) = (starts_with sub (c # cs) \<or> contains sub cs)"

fun split_go :: "string \<Rightarrow> nat \<Rightarrow> string \<Rightarrow> string \<Rightarrow> string list" where
  "split_go sep skip acc [] = [rev acc]"
| "split_go sep skip acc (c # cs) =
     (if skip > 0 then split_go sep (skip - 1) acc cs
      else if starts_with sep (c # cs) then rev acc # split_go sep (length sep - 1) [] cs
      else split_go sep 0 (c # acc) cs)"

definition split_sep :: "string \<Rightarrow> string \<Rightarrow> string list" where
  "split_sep sep s = split_go sep 0 [] s"

fun split_ws_go :: "string \<Rightarrow> string \<Rightarrow> string list" where
  "split_ws_go acc [] = (if acc = [] then [] else [rev acc])"
| "split_ws_go acc (c # cs) =
     (if is_space c then (if acc = [] then split_ws_go [] cs else rev acc # split_ws_go [] cs)
      else split_ws_go (c # acc) cs)"

definition split_ws :: "string \<Rightarrow> string list" where
  "split_ws s = split_ws_go [] s"

fun replace_go :: "string \<Rightarrow> string \<Rightarrow> nat \<Rightarrow> string \<Rightarrow> string" where
  "replace_go old new skip [] = []"
| "replace_go old new skip (c # cs) =
     (if skip > 0 then replace_go old new (skip - 1) cs
      else if starts_with old (c # cs) then new @ replace_go old new (length old - 1) cs
      else c # replace_go old new 0 cs)"

definition replace :: "string \<Rightarrow> string \<Rightarrow> string \<Rightarrow> string" where
  "replace old new s = replace_go old new 0 s"

definition digit_val :: "char \<Rightarrow> nat option" where
  "digit_val c = map_of [(CHR ''0'', 0), (CHR ''1'', 1), (CHR ''2'', 2), (CHR ''3'', 3), (CHR ''4'', 4),
                         (CHR ''5'', 5), (CHR ''6'', 6), (CHR ''7'', 7), (CHR ''8'', 8), (CHR ''9'', 9)] c"

definition is_digit :: "char \<Rightarrow> bool" where
  "is_digit c = (digit_val c \<noteq> None)"

definition digits_val :: "string \<Rightarrow> nat" where
  "digits_val ds = foldl (\<lambda>a c. 10 * a + (case digit_val c of None \<Rightarrow> 0 | Some d \<Rightarrow> d)) 0 ds"

definition is_float_space :: "char \<Rightarrow> bool" where
  \<comment> \<open>The whitespace \<^verbatim>\<open>float()\<close> skips at both ends of its argument (C \<^verbatim>\<open>isspace\<close>); unlike
      \<^verbatim>\<open>str.strip()\<close> it does not skip the separators 0x1C to 0x1F.\<close>
  "is_float_space c = (c \<in> set [CHR 0x09, CHR 0x0A, CHR 0x0B, CHR 0x0C, CHR 0x0D, CHR 0x20])"

definition float_strip :: "string \<Rightarrow> string" where
  "float_strip s = rev (dropWhile is_float_space (rev (dropWhile is_float_space s)))"

fun scan_digits :: "bool \<Rightarrow> string \<Rightarrow> string \<times> string" where
  \<comment> \<open>A \<^verbatim>\<open>digitpart\<close>: digits, with single underscores allowed between two digits. The
      result is the digits read and the rest; the flag says that the previous character was
      a digit.\<close>
  "scan_digits prev [] = ([], [])"
| "scan_digits prev (c # cs) =
     (if is_digit c then (case scan_digits True cs of (ds, r) \<Rightarrow> (c # ds, r))
      else if c = CHR ''_'' \<and> prev \<and> (case cs of [] \<Rightarrow> False | d # r \<Rightarrow> is_digit d)
        then scan_digits False cs
      else ([], c # cs))"

definition parse_exponent :: "string \<Rightarrow> int option" where
  "parse_exponent s =
     (case s of
        [] \<Rightarrow> Some 0
      | e # r \<Rightarrow>
          if e = CHR ''e'' \<or> e = CHR ''E'' then
            (let (neg, ds) = (case r of [] \<Rightarrow> (False, [])
                               | sg # r' \<Rightarrow> if sg = CHR ''-'' then (True, r')
                                            else if sg = CHR ''+'' then (False, r') else (False, r))
             in case scan_digits False ds of
                  (digits, rest) \<Rightarrow>
                    if digits \<noteq> [] \<and> rest = []
                    then Some (if neg then - int (digits_val digits) else int (digits_val digits))
                    else None)
          else None)"

definition py_float :: "string \<Rightarrow> rat option" where
  "py_float s =
     (let s1 = float_strip s;
          (neg, s2) = (case s1 of [] \<Rightarrow> (False, [])
                       | sg # r \<Rightarrow> if sg = CHR ''-'' then (True, r)
                                   else if sg = CHR ''+'' then (False, r) else (False, s1));
          (ip, r1) = scan_digits False s2;
          (fp, r2) = (case r1 of [] \<Rightarrow> ([], [])
                      | d # r \<Rightarrow> if d = CHR ''.'' then scan_digits False r else ([], r1))
      in if ip = [] \<and> fp = [] then None
         else (case parse_exponent r2 of
                 None \<Rightarrow> None
               | Some ex \<Rightarrow>
                   (let m = of_nat (digits_val ip) + of_nat (digits_val fp) / 10 ^ length fp;
                        v = (if ex \<ge> 0 then m * 10 ^ nat ex else m / 10 ^ nat (- ex))
                    in Some (if neg then - v else v))))"

section \<open>Exceptions\<close>

text \<open>
  A raised exception is a value: its class and its message (\<^verbatim>\<open>str(e)\<close>). The class
  \<open>Exception\<close> stands for any subclass of \<^verbatim>\<open>Exception\<close> that is not listed
  (\<^verbatim>\<open>OSError\<close>, \<^verbatim>\<open>aiohttp.ClientError\<close>, ...), \<open>BaseException\<close> for
  \<^verbatim>\<open>KeyboardInterrupt\<close> and \<^verbatim>\<open>SystemExit\<close>. \<^verbatim>\<open>asyncio.CancelledError\<close> derives
  from \<^verbatim>\<open>BaseException\<close>, so \<^verbatim>\<open>except Exception\<close> does not catch it.
  A computation that may raise returns \<open>exn + 'a\<close>, \<open>Inl\<close> the exception.
\<close>

datatype exn_class =
  BaseException | CancelledError | Exception | TimeoutError | ValueError | JSONDecodeError
  | IndexError | KeyError | TypeError | AttributeError | OverflowError

datatype exn = Exn (exn_class: exn_class) (exn_msg: string)

definition issubclass :: "exn_class \<Rightarrow> exn_class \<Rightarrow> bool" where
  \<comment> \<open>\<^verbatim>\<open>issubclass(a, b)\<close>\<close>
  "issubclass a b =
     (a = b \<or> b = BaseException
      \<or> (b = Exception \<and> a \<noteq> BaseException \<and> a \<noteq> CancelledError)
      \<or> (b = ValueError \<and> a = JSONDecodeError))"

definition isinstance :: "exn \<Rightarrow> exn_class \<Rightarrow> bool" where
  "isinstance e c = issubclass (exn_class e) c"

definition bind_res :: "exn + 'a \<Rightarrow> ('a \<Rightarrow> exn + 'b) \<Rightarrow> exn + 'b" where
  \<comment> \<open>Sequencing: an exception of the first computation skips the rest.\<close>
  "bind_res m f = (case m of Inl e \<Rightarrow> Inl e | Inr x \<Rightarrow> f x)"

definition try_except :: "exn + 'a \<Rightarrow> exn_class list \<Rightarrow> (exn \<Rightarrow> exn + 'a) \<Rightarrow> exn + 'a" where
  \<comment> \<open>\<^verbatim>\<open>try: body except (classes) as e: handler\<close>; an exception of no listed class
      propagates.\<close>
  "try_except body classes handler =
     (case body of
        Inl e \<Rightarrow> if list_ex (isinstance e) classes then handler e else Inl e
      | Inr x \<Rightarrow> Inr x)"

function str_nat :: "nat \<Rightarrow> string" where
  "str_nat n = (if n < 10 then [''0123456789'' ! n]
                else str_nat (n div 10) @ [''0123456789'' ! (n mod 10)])"
  by pat_completeness auto
termination
  by (relation "measure id") auto

definition str_int :: "int \<Rightarrow> string" where
  \<comment> \<open>\<^verbatim>\<open>str(i)\<close> for an \<^verbatim>\<open>int\<close>\<close>
  "str_int i = (if i < 0 then CHR ''-'' # str_nat (nat (- i)) else str_nat (nat i))"

section \<open>Reachability probe\<close>

fun time_loop :: "string list \<Rightarrow> exn + rat option" where
  \<comment> \<open>The first \<^verbatim>\<open>for line in lines\<close> loop of \<^verbatim>\<open>_parse_ping_output\<close>: \<open>Inr None\<close> when
      no line matches, \<open>Inr (Some t)\<close> at the \<^verbatim>\<open>break\<close>.\<close>
  "time_loop [] = Inr None"
| "time_loop (line # rest) =
     (if contains ''time='' (lower line) then
        (case split_sep ''time='' line of
           _ # after # _ \<Rightarrow>
             (case split_ws after of
                time_part # _ \<Rightarrow>
                  (case py_float (replace ''ms'' [] time_part) of
                     Some t \<Rightarrow> Inr (Some t)
                   | None \<Rightarrow> Inl (Exn ValueError ''could not convert string to float''))
              | [] \<Rightarrow> Inl (Exn IndexError ''list index out of range''))
         | _ \<Rightarrow> Inl (Exn IndexError ''list index out of range''))
      else time_loop rest)"

fun part_loop :: "string list \<Rightarrow> exn + rat option" where
  \<comment> \<open>\<^verbatim>\<open>for i, part in enumerate(parts)\<close>; \<open>take 2 rest\<close> is \<^verbatim>\<open>parts[i+1:i+3]\<close>.\<close>
  "part_loop [] = Inr None"
| "part_loop (part # rest) =
     (if contains ''%'' part \<and> (''packet'' \<in> set (take 2 rest) \<or> ''loss'' \<in> set (take 2 rest)) then
        (case py_float (replace ''%'' [] part) of
           Some l \<Rightarrow> Inr (Some l)
         | None \<Rightarrow> Inl (Exn ValueError ''could not convert string to float''))
      else part_loop rest)"

fun loss_loop :: "string list \<Rightarrow> exn + rat option" where
  \<comment> \<open>The second \<^verbatim>\<open>for line in lines\<close> loop: it ends at the first matching line.\<close>
  "loss_loop [] = Inr None"
| "loss_loop (line # rest) =
     (if contains ''% packet loss'' line \<or> contains ''% loss'' line then part_loop (split_ws line)
      else loss_loop rest)"

definition parse_ping_output :: "string \<Rightarrow> exn + (rat \<times> rat)" where
  \<comment> \<open>\<^verbatim>\<open>PingMonitor._parse_ping_output\<close>. An exception in the first loop leaves both
      initial values; one in the second loop keeps the response time already parsed.\<close>
  "parse_ping_output output =
     (let lines = split_sep [CHR 0x0A] output
      in try_except
           (bind_res (time_loop lines) (\<lambda>t.
              let response_time = (case t of None \<Rightarrow> 0 | Some x \<Rightarrow> x)
              in try_except
                   (bind_res (loss_loop lines) (\<lambda>l.
                      Inr (response_time, (case l of None \<Rightarrow> 100 | Some x \<Rightarrow> x))))
                   [ValueError, IndexError] (\<lambda>e. Inr (response_time, 100))))
           [ValueError, IndexError] (\<lambda>e. Inr (0, 100)))"

text \<open>
  What the operating system does in one \<^verbatim>\<open>PingMonitor.check_device\<close>: starting or
  awaiting the subprocess raises (\<^verbatim>\<open>asyncio.TimeoutError\<close> is class \<open>TimeoutError\<close>), or
  the process exits with a return code, its two output streams as \<^verbatim>\<open>bytes.decode()\<close>
  gives them (or raises), and the wall-clock milliseconds that went by.
\<close>

datatype ping_outcome =
  Ping_raises exn
  | Ping_exited (returncode: int) (stdout_decode: "exn + string") (stderr_decode: "exn + string")
      (elapsed_ms: rat)

definition failed_ping_metrics :: "rat pydict" where
  "failed_ping_metrics = [(''latency'', 0), (''packet_loss'', 100), (''uptime'', 0)]"

definition ping_try :: "DeviceConfig \<Rightarrow> ping_outcome \<Rightarrow> exn + (rat pydict \<times> rat \<times> string option)" where
  \<comment> \<open>The \<^verbatim>\<open>try\<close> block of \<^verbatim>\<open>PingMonitor.check_device\<close>: metrics, response time, error.\<close>
  "ping_try cfg out =
     (case out of
        Ping_raises e \<Rightarrow> Inl e
      | Ping_exited rc out_dec err_dec elapsed \<Rightarrow>
          if rc = 0 then
            bind_res out_dec (\<lambda>output.
            bind_res (parse_ping_output output) (\<lambda>(parsed_time, packet_loss).
              let response_time = (if parsed_time > 0 then parsed_time else elapsed)
              in Inr ([(''latency'', response_time), (''packet_loss'', packet_loss),
                       (''uptime'', if packet_loss < 100 then 100 else 0)],
                      response_time, None)))
          else
            bind_res err_dec (\<lambda>err.
              Inr (failed_ping_metrics, elapsed, Some (''Ping failed: '' @ strip err))))"

definition PingMonitor_check_device ::
  "DeviceMonitor \<Rightarrow> rat \<Rightarrow> ping_outcome \<Rightarrow> exn + (DeviceMetrics \<times> DeviceMonitor)" where
  \<comment> \<open>The second argument is \<^verbatim>\<open>datetime.now()\<close> at the return.\<close>
  "PingMonitor_check_device self now out =
     bind_res
       (try_except
          (try_except (ping_try (config self) out) [TimeoutError]
             (\<lambda>e. Inr (failed_ping_metrics, of_int (timeout (config self)) * 1000,
                        Some (''Ping timeout after '' @ str_int (timeout (config self)) @ '' seconds''))))
          [Exception]
          (\<lambda>e. Inr (failed_ping_metrics, of_int (timeout (config self)) * 1000,
                     Some (''Ping error: '' @ exn_msg e))))
       (\<lambda>(ms, rt, error).
          let (st, self') = determine_status self ms rt error
          in Inr (\<lparr>device_id = cfg_id (config self), timestamp = now, status = st, metrics = ms,
                    response_time = rt, last_error = error, monitoring_method = ''ping''\<rparr>, self'))"

section \<open>SNMP probe\<close>

text \<open>
  What the device answers to one \<^verbatim>\<open>_snmp_get\<close>: building or awaiting the request
  raises, or it yields \<^verbatim>\<open>(errorIndication, errorStatus, errorIndex, varBinds)\<close>, of
  which the model keeps whether the first two are set and \<^verbatim>\<open>str(varBind[1])\<close> of each
  binding. An agent maps each OID to its answer.
\<close>

datatype snmp_reply =
  Snmp_raises exn
  | Snmp_result (errorIndication: bool) (errorStatus: bool) (varBinds: "string list")

type_synonym snmp_agent = "string \<Rightarrow> snmp_reply"

definition OIDS :: "string pydict" where
  "OIDS =
     [(''system_uptime'', ''1.3.6.1.2.1.1.3.0''),
      (''system_description'', ''1.3.6.1.2.1.1.1.0''),
      (''system_name'', ''1.3.6.1.2.1.1.5.0''),
      (''cisco_cpu_5min'', ''1.3.6.1.4.1.9.9.109.1.1.1.1.7.1''),
      (''cisco_memory_used'', ''1.3.6.1.4.1.9.9.48.1.1.1.5.1''),
      (''cisco_memory_free'', ''1.3.6.1.4.1.9.9.48.1.1.1.6.1''),
      (''if_number'', ''1.3.6.1.2.1.2.1.0''),
      (''if_descr'', ''1.3.6.1.2.1.2.2.1.2''),
      (''if_type'', ''1.3.6.1.2.1.2.2.1.3''),
      (''if_speed'', ''1.3.6.1.2.1.2.2.1.5''),
      (''if_admin_status'', ''1.3.6.1.2.1.2.2.1.7''),
      (''if_oper_status'', ''1.3.6.1.2.1.2.2.1.8''),
      (''if_in_octets'', ''1.3.6.1.2.1.2.2.1.10''),
      (''if_out_octets'', ''1.3.6.1.2.1.2.2.1.16''),
      (''if_in_errors'', ''1.3.6.1.2.1.2.2.1.14''),
      (''if_out_errors'', ''1.3.6.1.2.1.2.2.1.20''),
      (''hr_cpu_load'', ''1.3.6.1.2.1.25.3.3.1.2''),
      (''hr_memory_size'', ''1.3.6.1.2.1.25.2.2.0''),
      (''hr_storage_used'', ''1.3.6.1.2.1.25.2.3.1.6''),
      (''hr_storage_size'', ''1.3.6.1.2.1.25.2.3.1.5'')]"

definition float_str :: "string \<Rightarrow> exn + rat" where
  \<comment> \<open>\<^verbatim>\<open>float(s)\<close> as a computation that may raise\<close>
  "float_str s = (case py_float s of
                    None \<Rightarrow> Inl (Exn ValueError ''could not convert string to float'')
                  | Some x \<Rightarrow> Inr x)"

definition snmp_get :: "snmp_agent \<Rightarrow> string \<Rightarrow> exn + string option" where
  \<comment> \<open>\<^verbatim>\<open>SNMPMonitor._snmp_get\<close>, called with \<^verbatim>\<open>self.OIDS[name]\<close>\<close>
  "snmp_get agent name =
     try_except
       (case agent (dict_get OIDS name []) of
          Snmp_raises e \<Rightarrow> Inl e
        | Snmp_result ei es vbs \<Rightarrow>
            if ei then Inr None
            else if es then Inr None
            else (case vbs of v # _ \<Rightarrow> Inr (Some v) | [] \<Rightarrow> Inr None))
       [Exception] (\<lambda>e. Inr None)"

definition uptime_step :: "snmp_agent \<Rightarrow> rat pydict \<Rightarrow> exn + rat pydict" where
  "uptime_step agent ms =
     bind_res (snmp_get agent ''system_uptime'') (\<lambda>uptime.
       case uptime of
         None \<Rightarrow> Inr ms
       | Some u \<Rightarrow> if u = [] then Inr ms
                   else bind_res (float_str u) (\<lambda>x. Inr (dict_set ms ''uptime'' (x / 100))))"

definition cpu_step :: "snmp_agent \<Rightarrow> rat pydict \<Rightarrow> exn + rat pydict" where
  "cpu_step agent ms =
     bind_res (snmp_get agent ''cisco_cpu_5min'') (\<lambda>c1.
     bind_res (if \<not> truthy c1 then snmp_get agent ''hr_cpu_load'' else Inr c1) (\<lambda>cpu_usage.
       case cpu_usage of
         None \<Rightarrow> Inr ms
       | Some c \<Rightarrow> if c = [] then Inr ms
                   else bind_res (float_str c) (\<lambda>x. Inr (dict_set ms ''cpu_usage'' x))))"

definition memory_step :: "snmp_agent \<Rightarrow> rat pydict \<Rightarrow> exn + rat pydict" where
  "memory_step agent ms =
     bind_res (snmp_get agent ''cisco_memory_used'') (\<lambda>memory_used.
     bind_res (snmp_get agent ''cisco_memory_free'') (\<lambda>memory_free.
       case (memory_used, memory_free) of
         (Some u, Some f) \<Rightarrow>
           if u = [] \<or> f = [] then Inr ms
           else bind_res (float_str u) (\<lambda>fu.
                bind_res (float_str f) (\<lambda>ff.
                  let total_memory = fu + ff
                  in if total_memory > 0
                     then Inr (dict_set ms ''memory_usage'' (fu / total_memory * 100))
                     else Inr ms))
       | _ \<Rightarrow> Inr ms))"

definition get_system_metrics :: "snmp_agent \<Rightarrow> exn + rat pydict" where
  \<comment> \<open>\<^verbatim>\<open>_get_system_metrics\<close>: one \<^verbatim>\<open>try\<close> around the three steps; its handler falls
      through to \<^verbatim>\<open>return metrics\<close>, the metrics stored before the exception.\<close>
  "get_system_metrics agent =
     try_except
       (bind_res (uptime_step agent []) (\<lambda>m1.
          try_except
            (bind_res (cpu_step agent m1) (\<lambda>m2.
               try_except (memory_step agent m2) [Exception] (\<lambda>e. Inr m2)))
            [Exception] (\<lambda>e. Inr m1)))
       [Exception] (\<lambda>e. Inr [])"

definition get_router_metrics :: "rat pydict" where
  "get_router_metrics = [(''routing_table_changes'', 5), (''packet_loss'', 1 / 10), (''latency'', 15)]"

definition get_switch_metrics :: "rat pydict" where
  "get_switch_metrics = [(''port_status'', 95), (''broadcast_storms'', 2), (''mac_table_size'', 70)]"

definition get_firewall_metrics :: "rat pydict" where
  "get_firewall_metrics =
     [(''active_sessions'', 150), (''blocked_traffic'', 25), (''vpn_tunnels'', 8),
      (''threat_detection'', 12)]"

definition get_interface_metrics :: "snmp_agent \<Rightarrow> exn + rat pydict" where
  "get_interface_metrics agent =
     try_except
       (bind_res (snmp_get agent ''if_number'') (\<lambda>if_count.
          if truthy if_count
          then Inr [(''interface_bandwidth'', 80), (''error_packets'', 10), (''traffic_per_port'', 60)]
          else Inr []))
       [Exception] (\<lambda>e. Inr [])"

definition device_defaults :: "(string \<times> rat pydict) list" where
  "device_defaults =
     [(''router'',
         [(''cpu_usage'', 25), (''interface_bandwidth'', 80), (''routing_table_changes'', 5),
          (''packet_loss'', 1 / 10), (''latency'', 15), (''uptime'', 995 / 10)]),
      (''switch'',
         [(''port_status'', 95), (''traffic_per_port'', 60), (''broadcast_storms'', 2),
          (''mac_table_size'', 70), (''error_packets'', 10), (''uptime'', 998 / 10)]),
      (''firewall'',
         [(''active_sessions'', 150), (''blocked_traffic'', 25), (''vpn_tunnels'', 8),
          (''cpu_usage'', 30), (''memory_usage'', 40), (''threat_detection'', 12),
          (''uptime'', 999 / 10)])]"

definition add_default_metrics :: "DeviceConfig \<Rightarrow> rat pydict \<Rightarrow> rat pydict" where
  "add_default_metrics cfg ms =
     foldl (\<lambda>acc (k, v). if dict_contains acc k then acc else dict_set acc k v) ms
       (dict_get device_defaults (cfg_type cfg) [])"

definition fallback_to_ping ::
  "DeviceMonitor \<Rightarrow> rat \<Rightarrow> ping_outcome \<Rightarrow> exn + (DeviceMetrics \<times> DeviceMonitor)" where
  \<comment> \<open>\<^verbatim>\<open>_fallback_to_ping\<close>: a new \<^verbatim>\<open>PingMonitor(self.config)\<close> is built, used once and
      dropped; the SNMP monitor itself is not changed.\<close>
  "fallback_to_ping self now out =
     bind_res (PingMonitor_check_device (DeviceMonitor_init (config self)) now out)
       (\<lambda>(result, ping_monitor). Inr (result\<lparr>monitoring_method := ''snmp_fallback_ping''\<rparr>, self))"

definition snmp_try :: "DeviceConfig \<Rightarrow> snmp_agent \<Rightarrow> rat \<Rightarrow> exn + (rat pydict \<times> rat)" where
  \<comment> \<open>The \<^verbatim>\<open>try\<close> block of \<^verbatim>\<open>SNMPMonitor.check_device\<close>; the last argument is the
      wall-clock time it took, in milliseconds.\<close>
  "snmp_try cfg agent elapsed =
     bind_res (get_system_metrics agent) (\<lambda>system_metrics.
       let m1 = dict_update [] system_metrics;
           m2 = (if cfg_type cfg = ''router'' then dict_update m1 get_router_metrics
                 else if cfg_type cfg = ''switch'' then dict_update m1 get_switch_metrics
                 else if cfg_type cfg = ''firewall'' then dict_update m1 get_firewall_metrics
                 else m1)
       in bind_res (get_interface_metrics agent) (\<lambda>interface_metrics.
            Inr (dict_update m2 interface_metrics, elapsed)))"

definition SNMPMonitor_check_device ::
  "bool \<Rightarrow> DeviceMonitor \<Rightarrow> rat \<Rightarrow> ping_outcome \<Rightarrow> snmp_agent \<Rightarrow> rat
     \<Rightarrow> exn + (DeviceMetrics \<times> DeviceMonitor)" where
  \<comment> \<open>The first argument is the module constant \<^verbatim>\<open>SNMP_AVAILABLE\<close>. The ping outcome is
      consulted only by the fallback, the agent and the elapsed time only otherwise.\<close>
  "SNMPMonitor_check_device snmp_available self now ping_out agent elapsed =
     (if \<not> snmp_available then fallback_to_ping self now ping_out
      else
        bind_res
          (try_except
             (bind_res (snmp_try (config self) agent elapsed) (\<lambda>(ms, rt). Inr (ms, rt, None)))
             [Exception]
             (\<lambda>e. Inr ([], of_int (timeout (config self)) * 1000,
                        Some (''SNMP monitoring failed: '' @ exn_msg e))))
          (\<lambda>(ms0, rt, error).
             let ms = add_default_metrics (config self) ms0;
                 (st, self') = determine_status self ms rt error
             in Inr (\<lparr>device_id = cfg_id (config self), timestamp = now, status = st,
                       metrics = ms, response_time = rt, last_error = error,
                       monitoring_method = ''snmp''\<rparr>, self')))"

section \<open>HTTP probe\<close>

text \<open>
  A decoded JSON document, as \<^verbatim>\<open>json\<close> builds it: a number written without fraction
  and exponent is an \<^verbatim>\<open>int\<close> (\<open>JInt\<close>, unbounded), any other number a \<^verbatim>\<open>float\<close>
  (\<open>JNum\<close>, a rational); an object is a \<^verbatim>\<open>dict\<close>.
\<close>

datatype json =
  JNull | JBool bool | JInt int | JNum rat | JStr string | JArr "json list"
  | JObj "(string \<times> json) list"

definition json_float :: "json \<Rightarrow> exn + rat" where
  \<comment> \<open>\<^verbatim>\<open>float(x)\<close>; an \<^verbatim>\<open>int\<close> that rounds to \<open>2 ^ 1024\<close> or more has no double.\<close>
  "json_float x =
     (case x of
        JNum r \<Rightarrow> Inr r
      | JInt i \<Rightarrow>
          if \<bar>i\<bar> < 2 ^ 1024 - 2 ^ 970 then Inr (of_int i)
          else Inl (Exn OverflowError ''int too large to convert to float'')
      | JBool b \<Rightarrow> Inr (if b then 1 else 0)
      | JStr s \<Rightarrow> float_str s
      | _ \<Rightarrow> Inl (Exn TypeError ''float() argument must be a string or a real number''))"

definition json_contains :: "string \<Rightarrow> json \<Rightarrow> exn + bool" where
  \<comment> \<open>\<^verbatim>\<open>key in data\<close>: a key of a dict, an element of a list, a substring of a string.\<close>
  "json_contains k data =
     (case data of
        JObj kvs \<Rightarrow> Inr (dict_contains kvs k)
      | JArr xs \<Rightarrow> Inr (JStr k \<in> set xs)
      | JStr s \<Rightarrow> Inr (contains k s)
      | _ \<Rightarrow> Inl (Exn TypeError ''argument is not iterable''))"

definition json_getitem :: "json \<Rightarrow> string \<Rightarrow> exn + json" where
  \<comment> \<open>\<^verbatim>\<open>data[key]\<close> for a string key.\<close>
  "json_getitem data k =
     (case data of
        JObj kvs \<Rightarrow> (case map_of kvs k of Some v \<Rightarrow> Inr v | None \<Rightarrow> Inl (Exn KeyError k))
      | JArr xs \<Rightarrow> Inl (Exn TypeError ''list indices must be integers or slices, not str'')
      | JStr s \<Rightarrow> Inl (Exn TypeError ''string indices must be integers'')
      | _ \<Rightarrow> Inl (Exn TypeError ''object is not subscriptable''))"

definition field_mappings :: "string pydict" where
  "field_mappings =
     [(''cpu'', ''cpu_usage''), (''cpu_usage'', ''cpu_usage''), (''cpu_percent'', ''cpu_usage''),
      (''memory'', ''memory_usage''), (''memory_usage'', ''memory_usage''),
      (''memory_percent'', ''memory_usage''), (''uptime'', ''uptime''),
      (''temperature'', ''temperature''), (''temp'', ''temperature''),
      (''load'', ''cpu_load''), (''load_avg'', ''cpu_load'')]"

fun mapping_loop :: "json \<Rightarrow> string pydict \<Rightarrow> rat pydict \<Rightarrow> exn + rat pydict" where
  \<comment> \<open>\<^verbatim>\<open>for api_field, metric_name in field_mappings.items()\<close>: the membership test is
      outside the inner \<^verbatim>\<open>try\<close>, the lookup and the conversion inside.\<close>
  "mapping_loop data [] ms = Inr ms"
| "mapping_loop data ((api_field, metric_name) # rest) ms =
     (case json_contains api_field data of
        Inl e \<Rightarrow> Inl e
      | Inr present \<Rightarrow>
          if present then
            (case try_except
                    (bind_res (json_getitem data api_field) (\<lambda>v.
                     bind_res (json_float v) (\<lambda>x. Inr (dict_set ms metric_name x))))
                    [ValueError, TypeError] (\<lambda>e. Inr ms) of
               Inl e \<Rightarrow> Inl e
             | Inr ms' \<Rightarrow> mapping_loop data rest ms')
          else mapping_loop data rest ms)"

definition nested_field :: "json \<Rightarrow> string \<Rightarrow> string \<Rightarrow> string \<Rightarrow> rat pydict \<Rightarrow> exn + rat pydict" where
  \<comment> \<open>\<^verbatim>\<open>if outer in data: x = data[outer]; if isinstance(x, dict) and inner in x:
      metrics[metric] = float(x[inner])\<close>\<close>
  "nested_field data outer inner metric ms =
     bind_res (json_contains outer data) (\<lambda>present.
       if present then
         bind_res (json_getitem data outer) (\<lambda>x.
           case x of
             JObj kvs \<Rightarrow>
               (case map_of kvs inner of
                  Some v \<Rightarrow> bind_res (json_float v) (\<lambda>r. Inr (dict_set ms metric r))
                | None \<Rightarrow> Inr ms)
           | _ \<Rightarrow> Inr ms)
       else Inr ms)"

definition plain_field :: "json \<Rightarrow> string \<Rightarrow> string \<Rightarrow> rat pydict \<Rightarrow> exn + rat pydict" where
  \<comment> \<open>\<^verbatim>\<open>if key in data: metrics[metric] = float(data[key])\<close>\<close>
  "plain_field data k metric ms =
     bind_res (json_contains k data) (\<lambda>present.
       if present then
         bind_res (json_getitem data k) (\<lambda>v.
         bind_res (json_float v) (\<lambda>r. Inr (dict_set ms metric r)))
       else Inr ms)"

definition parse_http_response :: "DeviceConfig \<Rightarrow> json \<Rightarrow> exn + rat pydict" where
  \<comment> \<open>\<^verbatim>\<open>HTTPMonitor._parse_http_response\<close>\<close>
  "parse_http_response cfg data =
     bind_res (mapping_loop data field_mappings []) (\<lambda>ms.
       if cfg_type cfg = ''router'' then
         bind_res (nested_field data ''interfaces'' ''utilization'' ''interface_bandwidth'' ms) (\<lambda>ms1.
           nested_field data ''routing'' ''changes'' ''routing_table_changes'' ms1)
       else if cfg_type cfg = ''firewall'' then
         bind_res (plain_field data ''sessions'' ''active_sessions'' ms) (\<lambda>ms1.
         bind_res (plain_field data ''blocked'' ''blocked_traffic'' ms1) (\<lambda>ms2.
           plain_field data ''vpn'' ''vpn_tunnels'' ms2))
       else Inr ms)"

definition text_value :: "string \<Rightarrow> exn + rat" where
  \<comment> \<open>\<^verbatim>\<open>float(line.split(':')[1].strip().replace('%', ''))\<close>\<close>
  "text_value line =
     (case split_sep '':'' line of
        _ # v # _ \<Rightarrow> float_str (replace ''%'' [] (strip v))
      | _ \<Rightarrow> Inl (Exn IndexError ''list index out of range''))"

fun text_loop :: "string list \<Rightarrow> rat pydict \<Rightarrow> exn + rat pydict" where
  "text_loop [] ms = Inr ms"
| "text_loop (raw # rest) ms =
     (let line = lower (strip raw)
      in case
           (if contains ''cpu:'' line \<or> contains ''cpu usage:'' line then
              try_except (bind_res (text_value line) (\<lambda>v. Inr (dict_set ms ''cpu_usage'' v)))
                [ValueError, IndexError] (\<lambda>e. Inr ms)
            else if contains ''memory:'' line \<or> contains ''memory usage:'' line then
              try_except (bind_res (text_value line) (\<lambda>v. Inr (dict_set ms ''memory_usage'' v)))
                [ValueError, IndexError] (\<lambda>e. Inr ms)
            else Inr ms) of
           Inl e \<Rightarrow> Inl e
         | Inr ms' \<Rightarrow> text_loop rest ms')"

definition parse_text_response :: "string \<Rightarrow> exn + rat pydict" where
  \<comment> \<open>\<^verbatim>\<open>HTTPMonitor._parse_text_response\<close>\<close>
  "parse_text_response text = text_loop (split_sep [CHR 0x0A] text) []"

text \<open>
  What the device's web server does in one \<^verbatim>\<open>HTTPMonitor.check_device\<close>: opening the
  session or the request raises (a timeout is class \<open>TimeoutError\<close>), or a response
  arrives with its status, reason, the milliseconds that went by, and what
  \<^verbatim>\<open>await response.json()\<close> and \<^verbatim>\<open>await response.text()\<close> give (or raise). Leaving
  the two \<^verbatim>\<open>async with\<close> blocks is taken not to raise.
\<close>

datatype http_outcome =
  Http_raises exn
  | Http_response (status_code: int) (reason: string) (http_elapsed_ms: rat)
      (json_body: "exn + json") (text_body: "exn + string")

definition basic_auth :: "DeviceConfig \<Rightarrow> exn + (string \<times> string) option" where
  \<comment> \<open>\<^verbatim>\<open>if self.config.http_auth: auth = aiohttp.BasicAuth(a['username'], a['password'])\<close>\<close>
  "basic_auth cfg =
     (case http_auth cfg of
        None \<Rightarrow> Inr None
      | Some a \<Rightarrow>
          if a = [] then Inr None
          else (case map_of a ''username'' of
                  None \<Rightarrow> Inl (Exn KeyError ''username'')
                | Some u \<Rightarrow>
                    (case map_of a ''password'' of
                       None \<Rightarrow> Inl (Exn KeyError ''password'')
                     | Some p \<Rightarrow> Inr (Some (u, p)))))"

definition http_url :: "DeviceConfig \<Rightarrow> string" where
  \<comment> \<open>\<^verbatim>\<open>self.config.http_endpoint or f"http://{self.config.ip_address}/api/status"\<close>\<close>
  "http_url cfg =
     (case http_endpoint cfg of
        None \<Rightarrow> ''http://'' @ ip_address cfg @ ''/api/status''
      | Some u \<Rightarrow> if u = [] then ''http://'' @ ip_address cfg @ ''/api/status'' else u)"

definition http_try ::
  "DeviceConfig \<Rightarrow> (string \<Rightarrow> http_outcome) \<Rightarrow> exn + (rat pydict \<times> rat \<times> string option)" where
  \<comment> \<open>The \<^verbatim>\<open>try\<close> block of \<^verbatim>\<open>HTTPMonitor.check_device\<close>; the server is asked at the
      probe's URL. \<^verbatim>\<open>metrics\<close> is assigned only when a parser returns.\<close>
  "http_try cfg server =
     bind_res (basic_auth cfg) (\<lambda>auth.
       case server (http_url cfg) of
         Http_raises e \<Rightarrow> Inl e
       | Http_response st rsn elapsed js txt \<Rightarrow>
           if st = 200 then
             bind_res
               (try_except (bind_res js (\<lambda>data. parse_http_response cfg data))
                  [JSONDecodeError] (\<lambda>e. bind_res txt (\<lambda>text_data. parse_text_response text_data)))
               (\<lambda>ms. Inr (ms, elapsed, None))
           else Inr ([], elapsed, Some (''HTTP '' @ str_int st @ '': '' @ rsn)))"

definition HTTPMonitor_check_device ::
  "DeviceMonitor \<Rightarrow> rat \<Rightarrow> (string \<Rightarrow> http_outcome) \<Rightarrow> exn + (DeviceMetrics \<times> DeviceMonitor)" where
  "HTTPMonitor_check_device self now server =
     bind_res
       (try_except
          (try_except (http_try (config self) server) [TimeoutError]
             (\<lambda>e. Inr ([], of_int (timeout (config self)) * 1000,
                        Some (''HTTP request timeout after '' @ str_int (timeout (config self))
                              @ '' seconds''))))
          [Exception]
          (\<lambda>e. Inr ([], of_int (timeout (config self)) * 1000,
                     Some (''HTTP monitoring failed: '' @ exn_msg e))))
       (\<lambda>(ms, rt, error).
          let (st, self') = determine_status self ms rt error
          in Inr (\<lparr>device_id = cfg_id (config self), timestamp = now, status = st, metrics = ms,
                    response_time = rt, last_error = error, monitoring_method = ''http''\<rparr>, self'))"

section \<open>Backend API client\<close>

text \<open>The dataclass \<^verbatim>\<open>APIConfig\<close>; its field \<^verbatim>\<open>timeout\<close> is \<open>api_timeout\<close> here.\<close>

record APIConfig =
  base_url :: string
  username :: string
  password :: string
  api_timeout :: int
  retry_attempts :: int
  retry_delay :: int

text \<open>
  What the client does to the outside, in order: an HTTP request (method, URL, JSON
  payload, and the token of its \<^verbatim>\<open>Authorization: Bearer\<close> header when \<^verbatim>\<open>_get_headers\<close>
  adds one) or an \<^verbatim>\<open>asyncio.sleep\<close>. The client's \<open>trace\<close> field records them; it is
  the model's view of the session, which is taken to be open (the client is used inside
  its \<^verbatim>\<open>async with\<close> block).
\<close>

datatype api_event =
  Http_req (req_method: string) (req_url: string) (req_json: "json option") (req_bearer: "json option")
  | Sleep int

datatype api_response =
  Api_raises exn
  | Api_response (api_status: int) (api_json: "exn + json")

text \<open>
  The backend and the clock: the answer to the \<open>n\<close>-th request the client sends (counted
  from 0; the body is what \<^verbatim>\<open>await response.json()\<close> gives or raises), and the reading of
  \<^verbatim>\<open>datetime.now()\<close>, in seconds, after \<open>n\<close> events. The range limits of
  \<^verbatim>\<open>timedelta\<close> and \<^verbatim>\<open>datetime\<close> are not modelled.
\<close>

record backend =
  respond :: "nat \<Rightarrow> api_response"
  clock :: "nat \<Rightarrow> rat"

record APIClient =
  api_config :: APIConfig
  token :: json
  token_expires :: "rat option"
  trace :: "api_event list"

definition APIClient_init :: "APIConfig \<Rightarrow> APIClient" where
  \<comment> \<open>\<^verbatim>\<open>self.token = None\<close> is \<open>JNull\<close>.\<close>
  "APIClient_init c = \<lparr>api_config = c, token = JNull, token_expires = None, trace = []\<rparr>"

fun is_request :: "api_event \<Rightarrow> bool" where
  "is_request (Http_req m u j b) = True"
| "is_request (Sleep d) = False"

definition requests_sent :: "APIClient \<Rightarrow> nat" where
  "requests_sent self = length (filter is_request (trace self))"

definition json_truthy :: "json \<Rightarrow> bool" where
  \<comment> \<open>Python truth value of a decoded JSON value.\<close>
  "json_truthy j =
     (case j of JNull \<Rightarrow> False | JBool b \<Rightarrow> b | JInt i \<Rightarrow> i \<noteq> 0 | JNum r \<Rightarrow> r \<noteq> 0
      | JStr s \<Rightarrow> s \<noteq> []
      | JArr xs \<Rightarrow> xs \<noteq> [] | JObj kvs \<Rightarrow> kvs \<noteq> [])"

definition get_headers :: "APIClient \<Rightarrow> json option" where
  \<comment> \<open>\<^verbatim>\<open>_get_headers\<close>: the bearer token, when \<^verbatim>\<open>self.token\<close> is true.\<close>
  "get_headers self = (if json_truthy (token self) then Some (token self) else None)"

definition send :: "backend \<Rightarrow> APIClient \<Rightarrow> api_event \<Rightarrow> api_response \<times> APIClient" where
  \<comment> \<open>One \<^verbatim>\<open>self.session.get/post/put\<close>: the request is recorded, the backend answers.\<close>
  "send env self req = (respond env (requests_sent self), self\<lparr>trace := trace self @ [req]\<rparr>)"

definition sleep :: "APIClient \<Rightarrow> int \<Rightarrow> APIClient" where
  "sleep self d = self\<lparr>trace := trace self @ [Sleep d]\<rparr>"

definition clock_now :: "backend \<Rightarrow> APIClient \<Rightarrow> rat" where
  "clock_now env self = clock env (length (trace self))"

definition json_get_method :: "json \<Rightarrow> string \<Rightarrow> json \<Rightarrow> exn + json" where
  \<comment> \<open>\<^verbatim>\<open>data.get(key, default)\<close>: only a dict has the method.\<close>
  "json_get_method data k dflt =
     (case data of
        JObj kvs \<Rightarrow> Inr (dict_get kvs k dflt)
      | _ \<Rightarrow> Inl (Exn AttributeError ''object has no attribute get''))"

definition json_minus :: "json \<Rightarrow> rat \<Rightarrow> exn + rat" where
  \<comment> \<open>\<^verbatim>\<open>x - n\<close> for a number \<^verbatim>\<open>n\<close>\<close>
  "json_minus x n =
     (case x of
        JNum r \<Rightarrow> Inr (r - n)
      | JInt i \<Rightarrow> Inr (of_int i - n)
      | JBool b \<Rightarrow> Inr ((if b then 1 else 0) - n)
      | _ \<Rightarrow> Inl (Exn TypeError ''unsupported operand type(s) for -''))"

definition login_data :: "APIConfig \<Rightarrow> json" where
  "login_data c = JObj [(''username'', JStr (username c)), (''password'', JStr (password c))]"

definition login_request :: "APIConfig \<Rightarrow> api_event" where
  \<comment> \<open>\<^verbatim>\<open>self.session.post(f"{base_url}/login", json=login_data)\<close>\<close>
  "login_request c = Http_req ''POST'' (base_url c @ ''/login'') (Some (login_data c)) None"

definition get_request :: "APIClient \<Rightarrow> api_event" where
  \<comment> \<open>\<^verbatim>\<open>self.session.get(f"{base_url}/devices", headers=self._get_headers())\<close>\<close>
  "get_request self = Http_req ''GET'' (base_url (api_config self) @ ''/devices'') None (get_headers self)"

definition post_request :: "APIClient \<Rightarrow> json \<Rightarrow> api_event" where
  \<comment> \<open>\<^verbatim>\<open>self.session.post(f"{base_url}/devices", json=device_data, headers=...)\<close>\<close>
  "post_request self device_data =
     Http_req ''POST'' (base_url (api_config self) @ ''/devices'') (Some device_data) (get_headers self)"

definition put_request :: "APIClient \<Rightarrow> string \<Rightarrow> json \<Rightarrow> api_event" where
  \<comment> \<open>\<^verbatim>\<open>self.session.put(f"{base_url}/devices/{device_id}", json=update_data, headers=...)\<close>\<close>
  "put_request self dev_id update_data =
     Http_req ''PUT'' (base_url (api_config self) @ ''/devices/'' @ dev_id) (Some update_data)
       (get_headers self)"

definition authenticate :: "backend \<Rightarrow> APIClient \<Rightarrow> exn + (bool \<times> APIClient)" where
  \<comment> \<open>\<^verbatim>\<open>APIClient.authenticate\<close>. The token is stored before the expiry is computed, so
      an exception in between leaves the new token with the old expiry.\<close>
  "authenticate env self =
     (case send env self (login_request (api_config self)) of
        (resp, s1) \<Rightarrow>
          try_except
            (case resp of
               Api_raises e \<Rightarrow> Inl e
             | Api_response st body \<Rightarrow>
                 if st = 200 then
                   bind_res body (\<lambda>data.
                   bind_res (json_getitem data ''token'') (\<lambda>tok.
                     let s2 = s1\<lparr>token := tok\<rparr>
                     in try_except
                          (bind_res (json_get_method data ''expires_in'' (JNum (24 * 3600))) (\<lambda>expires_in.
                           bind_res (json_minus expires_in 300) (\<lambda>secs.
                             Inr (True, s2\<lparr>token_expires := Some (clock_now env s2 + secs)\<rparr>))))
                          [Exception] (\<lambda>e. Inr (False, s2))))
                 else
                   bind_res body (\<lambda>error_data.
                   bind_res (json_get_method error_data ''error'' (JStr ''Unknown error'')) (\<lambda>msg.
                     Inr (False, s1))))
            [Exception] (\<lambda>e. Inr (False, s1)))"

definition ensure_authenticated :: "backend \<Rightarrow> APIClient \<Rightarrow> exn + APIClient" where
  \<comment> \<open>\<^verbatim>\<open>_ensure_authenticated\<close>; the result of \<^verbatim>\<open>authenticate\<close> is not looked at.\<close>
  "ensure_authenticated env self =
     (if \<not> json_truthy (token self)
         \<or> (case token_expires self of None \<Rightarrow> False | Some t \<Rightarrow> clock_now env self \<ge> t)
      then bind_res (authenticate env self) (\<lambda>(ok, s). Inr s)
      else Inr self)"

definition get_devices :: "backend \<Rightarrow> APIClient \<Rightarrow> exn + (json \<times> APIClient)" where
  \<comment> \<open>\<^verbatim>\<open>APIClient.get_devices\<close>: one request, no loop.\<close>
  "get_devices env self =
     bind_res (ensure_authenticated env self) (\<lambda>s0.
       case send env s0 (get_request s0) of
         (resp, s1) \<Rightarrow>
           try_except
             (case resp of
                Api_raises e \<Rightarrow> Inl e
              | Api_response st body \<Rightarrow>
                  if st = 200 then bind_res body (\<lambda>devices. Inr (devices, s1))
                  else Inr (JArr [], s1))
             [Exception] (\<lambda>e. Inr (JArr [], s1)))"

fun create_loop :: "backend \<Rightarrow> json \<Rightarrow> nat \<Rightarrow> APIClient \<Rightarrow> exn + (bool \<times> APIClient)" where
  \<comment> \<open>\<^verbatim>\<open>for attempt in range(retry_attempts)\<close> of \<^verbatim>\<open>create_device\<close>, by the number of
      attempts left: \<^verbatim>\<open>attempt < retry_attempts - 1\<close> says that one more is left after
      this one.\<close>
  "create_loop env device_data 0 self = Inr (False, self)"
| "create_loop env device_data (Suc left) self =
     (case send env self (post_request self device_data) of
        (resp, s1) \<Rightarrow>
          (case (case resp of
                   Api_raises e \<Rightarrow> Inl e
                 | Api_response st body \<Rightarrow>
                     if st = 200 then
                       bind_res body (\<lambda>result.
                       bind_res (json_getitem device_data ''name'') (\<lambda>name. Inr True))
                     else
                       bind_res body (\<lambda>error_data.
                       bind_res (json_get_method error_data ''error'' (JStr ''Unknown error''))
                         (\<lambda>msg. Inr False))) of
             Inr ok \<Rightarrow> Inr (ok, s1)
           | Inl e \<Rightarrow>
               if isinstance e Exception
               then create_loop env device_data left (if left > 0 then sleep s1 (retry_delay (api_config s1)) else s1)
               else Inl e))"

definition create_device :: "backend \<Rightarrow> APIClient \<Rightarrow> json \<Rightarrow> exn + (bool \<times> APIClient)" where
  "create_device env self device_data =
     bind_res (ensure_authenticated env self) (\<lambda>s0.
       create_loop env device_data (nat (retry_attempts (api_config s0))) s0)"

datatype attempt_result = Return bool | Continue APIClient

fun update_loop :: "backend \<Rightarrow> string \<Rightarrow> json \<Rightarrow> nat \<Rightarrow> APIClient \<Rightarrow> exn + (bool \<times> APIClient)" where
  \<comment> \<open>\<^verbatim>\<open>for attempt in range(retry_attempts)\<close> of \<^verbatim>\<open>update_device\<close>, by the number of
      attempts left. A 401 re-authenticates and goes to the next attempt without sleeping.\<close>
  "update_loop env dev_id update_data 0 self = Inr (False, self)"
| "update_loop env dev_id update_data (Suc left) self =
     (case send env self (put_request self dev_id update_data) of
        (resp, s1) \<Rightarrow>
          (case (case resp of
                   Api_raises e \<Rightarrow> Inl e
                 | Api_response st body \<Rightarrow>
                     if st = 200 then Inr (Return True)
                     else if st = 401 then
                       bind_res (authenticate env s1) (\<lambda>(ok, s2). Inr (Continue s2))
                     else
                       bind_res body (\<lambda>error_data.
                       bind_res (json_get_method error_data ''error'' (JStr ''Unknown error''))
                         (\<lambda>msg. Inr (Return False)))) of
             Inr (Return ok) \<Rightarrow> Inr (ok, s1)
           | Inr (Continue s2) \<Rightarrow> update_loop env dev_id update_data left s2
           | Inl e \<Rightarrow>
               if isinstance e Exception
               then update_loop env dev_id update_data left
                      (if left > 0 then sleep s1 (retry_delay (api_config s1)) else s1)
               else Inl e))"

definition update_device ::
  "backend \<Rightarrow> APIClient \<Rightarrow> string \<Rightarrow> json \<Rightarrow> exn + (bool \<times> APIClient)" where
  "update_device env self dev_id update_data =
     bind_res (ensure_authenticated env self) (\<lambda>s0.
       update_loop env dev_id update_data (nat (retry_attempts (api_config s0))) s0)"

section \<open>Vocabulary for the statements about failures\<close>

text \<open>
  An outcome is ordinary when every exception in it derives from \<^verbatim>\<open>Exception\<close>, the
  class the probes' handlers catch (a cancellation of the task is not ordinary). A ping
  outcome is a failure when it raises, exits with a non-zero code or has an output that
  does not decode; an HTTP outcome is a failure when it raises, its status is not 200 or
  reading its body raises.
\<close>

fun ordinary_res :: "exn + 'a \<Rightarrow> bool" where
  "ordinary_res (Inl e) = isinstance e Exception"
| "ordinary_res (Inr x) = True"

fun ping_ordinary :: "ping_outcome \<Rightarrow> bool" where
  "ping_ordinary (Ping_raises e) = isinstance e Exception"
| "ping_ordinary (Ping_exited rc out_dec err_dec el) = (ordinary_res out_dec \<and> ordinary_res err_dec)"

fun ping_failed :: "ping_outcome \<Rightarrow> bool" where
  "ping_failed (Ping_raises e) = True"
| "ping_failed (Ping_exited rc out_dec err_dec el) = (rc \<noteq> 0 \<or> isl out_dec)"

fun http_ordinary :: "http_outcome \<Rightarrow> bool" where
  "http_ordinary (Http_raises e) = isinstance e Exception"
| "http_ordinary (Http_response st rsn el js txt) = (ordinary_res js \<and> ordinary_res txt)"

definition body_read_fails :: "exn + json \<Rightarrow> exn + string \<Rightarrow> bool" where
  \<comment> \<open>Reading the body raises: \<^verbatim>\<open>response.json()\<close> with something other than a decoding
      error, or \<^verbatim>\<open>response.text()\<close> after a decoding error.\<close>
  "body_read_fails js txt =
     (case js of Inl e \<Rightarrow> \<not> isinstance e JSONDecodeError \<or> isl txt | Inr d \<Rightarrow> False)"

fun http_failed :: "http_outcome \<Rightarrow> bool" where
  "http_failed (Http_raises e) = True"
| "http_failed (Http_response st rsn el js txt) = (st \<noteq> 200 \<or> body_read_fails js txt)"

fun snmp_ordinary :: "snmp_reply \<Rightarrow> bool" where
  "snmp_ordinary (Snmp_raises e) = isinstance e Exception"
| "snmp_ordinary (Snmp_result ei es vbs) = True"

text \<open>
  A read of the SNMP probe fails when the request raises or the reply carries an error
  indication, an error status or no binding: these are the cases in which
  \<^verbatim>\<open>_snmp_get\<close> returns \<^verbatim>\<open>None\<close>. \<open>snmp_reads\<close> names the OIDs that one check reads. A
  metric is unread when the reads it is computed from have failed: the uptime read for
  \<^verbatim>\<open>uptime\<close>, both CPU reads for \<^verbatim>\<open>cpu_usage\<close>, one of the two memory reads for
  \<^verbatim>\<open>memory_usage\<close>, the interface count for the three interface metrics.
\<close>

fun snmp_read_fails :: "snmp_reply \<Rightarrow> bool" where
  "snmp_read_fails (Snmp_raises e) = True"
| "snmp_read_fails (Snmp_result ei es vbs) = (ei \<or> es \<or> vbs = [])"

definition read_fails :: "snmp_agent \<Rightarrow> string \<Rightarrow> bool" where
  "read_fails agent name = snmp_read_fails (agent (dict_get OIDS name []))"

definition snmp_reads :: "string list" where
  "snmp_reads = [''system_uptime'', ''cisco_cpu_5min'', ''hr_cpu_load'', ''cisco_memory_used'',
                 ''cisco_memory_free'', ''if_number'']"

definition metric_unread :: "snmp_agent \<Rightarrow> string \<Rightarrow> bool" where
  "metric_unread agent k =
     (if k = ''uptime'' then read_fails agent ''system_uptime''
      else if k = ''cpu_usage''
        then read_fails agent ''cisco_cpu_5min'' \<and> read_fails agent ''hr_cpu_load''
      else if k = ''memory_usage''
        then read_fails agent ''cisco_memory_used'' \<or> read_fails agent ''cisco_memory_free''
      else if k = ''interface_bandwidth'' \<or> k = ''error_packets'' \<or> k = ''traffic_per_port''
        then read_fails agent ''if_number''
      else False)"

fun api_ordinary :: "api_response \<Rightarrow> bool" where
  "api_ordinary (Api_raises e) = isinstance e Exception"
| "api_ordinary (Api_response st body) = ordinary_res body"

fun attempts_spaced :: "api_event \<Rightarrow> int \<Rightarrow> nat \<Rightarrow> api_event list" where
  \<comment> \<open>\<open>n\<close> attempts of one request with a sleep between consecutive attempts and none
      after the last.\<close>
  "attempts_spaced req d 0 = []"
| "attempts_spaced req d (Suc n) = req # (if n = 0 then [] else Sleep d # attempts_spaced req d n)"

section \<open>Scenario inputs\<close>

text \<open>
  Two texts a successful \<^verbatim>\<open>ping -c 3\<close> can print: the two lines the scenario names, and
  the full report of the Linux utility for three replies.
\<close>

definition ping_output_minimal :: string where
  "ping_output_minimal = py_join [CHR 0x0A] [''time=23.4 ms'', ''0% packet loss'']"

definition ping_output_linux :: string where
  "ping_output_linux = py_join [CHR 0x0A]
     [''PING 192.168.1.1 (192.168.1.1) 56(84) bytes of data.'',
      ''64 bytes from 192.168.1.1: icmp_seq=1 ttl=64 time=23.4 ms'',
      ''64 bytes from 192.168.1.1: icmp_seq=2 ttl=64 time=22.9 ms'',
      ''64 bytes from 192.168.1.1: icmp_seq=3 ttl=64 time=24.1 ms'',
      [],
      ''--- 192.168.1.1 ping statistics ---'',
      ''3 packets transmitted, 3 received, 0% packet loss, time 2003ms'',
      ''rtt min/avg/max/mdev = 22.900/23.467/24.100/0.492 ms'',
      []]"

text \<open>
  Three more texts that hold a line with \<^verbatim>\<open>time=23.4 ms\<close> and a line with
  \<^verbatim>\<open>0% packet loss\<close>: a report whose first reply took 50.1 ms, a text with a line
  \<^verbatim>\<open>Time=1\<close> in front, and a text whose loss line reads \<^verbatim>\<open>10% packet loss\<close>.
\<close>

definition ping_output_slow_first :: string where
  "ping_output_slow_first = py_join [CHR 0x0A]
     [''PING 192.168.1.1 (192.168.1.1) 56(84) bytes of data.'',
      ''64 bytes from 192.168.1.1: icmp_seq=1 ttl=64 time=50.1 ms'',
      ''64 bytes from 192.168.1.1: icmp_seq=2 ttl=64 time=23.4 ms'',
      ''64 bytes from 192.168.1.1: icmp_seq=3 ttl=64 time=24.1 ms'',
      [],
      ''--- 192.168.1.1 ping statistics ---'',
      ''3 packets transmitted, 3 received, 0% packet loss, time 2003ms'',
      ''rtt min/avg/max/mdev = 23.400/32.533/50.100/12.425 ms'',
      []]"

definition ping_output_capital_time :: string where
  "ping_output_capital_time = py_join [CHR 0x0A]
     [''Time=1'', ''time=23.4 ms'', ''0% packet loss'']"

definition ping_output_ten_percent :: string where
  "ping_output_ten_percent = py_join [CHR 0x0A] [''time=23.4 ms'', ''10% packet loss'']"

text \<open>The API section that \<^verbatim>\<open>create_default_config\<close> writes.\<close>

definition default_api_config :: APIConfig where
  "default_api_config =
     \<lparr>base_url = ''http://localhost:5000/api'', username = ''Admin'', password = ''Admin123'',
      api_timeout = 30, retry_attempts = 3, retry_delay = 5\<rparr>"

section \<open>Properties of the classifier\<close>

lemma dict_contains_map_of: "dict_contains d k \<longleftrightarrow> map_of d k \<noteq> None"
  by (simp add: dict_contains_def map_of_eq_None_iff)

lemma threshold_breach_iff:
  "threshold_breach th ms \<longleftrightarrow> (\<exists>(k, v) \<in> set ms. \<exists>t. map_of th k = Some t \<and> v \<ge> t)"
  by (induction ms) (auto split: option.splits)

text \<open>
  C1. With no error present, a metric that is listed in the critical-threshold map and
  whose value is at least its critical threshold makes \<open>determine_status\<close> return
  \<open>critical\<close>, whatever the other metrics, the warning thresholds and the response time are.
\<close>

theorem critical_breach_forces_critical:
  assumes "\<not> truthy error"
    and "(k, v) \<in> set ms"
    and "map_of (critical_thresholds (config self)) k = Some t"
    and "v \<ge> t"
  shows "fst (determine_status self ms rt error) = ''critical''"
proof -
  have "threshold_breach (critical_thresholds (config self)) ms"
    unfolding threshold_breach_iff using assms(2-4) by blast
  with assms(1) show ?thesis
    by (simp add: determine_status_def Let_def)
qed

theorem critical_breach_forces_critical_witness:
  "fst (determine_status (DeviceMonitor_init device_router_01)
     [(''memory_usage'', 80), (''cpu_usage'', 95)] 12 None) = ''critical''"
  by (rule critical_breach_forces_critical[where k = "''cpu_usage''" and v = 95 and t = 90])
     (simp_all add: truthy_def DeviceMonitor_init_def post_init_def device_router_01_def
        default_critical_thresholds_def)

text \<open>
  C2. Starting from a failure counter of zero (and the limit of three that the constructor
  sets), three consecutive calls with an error present return \<open>warning\<close>, \<open>warning\<close>,
  \<open>offline\<close>; and a call with no error present leaves the counter at zero, whatever
  it was before.
\<close>

theorem three_failures_then_offline:
  assumes "consecutive_failures self = 0" and "max_failures self = 3"
    and "truthy e1" and "truthy e2" and "truthy e3" and "\<not> truthy e0"
  shows "fst (determine_status self m1 r1 e1) = ''warning''
       \<and> fst (determine_status (snd (determine_status self m1 r1 e1)) m2 r2 e2) = ''warning''
       \<and> fst (determine_status (snd (determine_status (snd (determine_status self m1 r1 e1))
                m2 r2 e2)) m3 r3 e3) = ''offline''
       \<and> consecutive_failures (snd (determine_status other m0 r0 e0)) = 0"
  using assms by (simp add: determine_status_def Let_def)

theorem three_failures_then_offline_witness:
  "fst (determine_status (DeviceMonitor_init device_router_01) [] 10000 (Some ''Ping timeout after 10 seconds'')) = ''warning''
   \<and> fst (determine_status (snd (determine_status (DeviceMonitor_init device_router_01) [] 10000
           (Some ''Ping timeout after 10 seconds''))) [] 10000 (Some ''Ping error: refused'')) = ''warning''
   \<and> fst (determine_status (snd (determine_status (snd (determine_status
           (DeviceMonitor_init device_router_01) [] 10000 (Some ''Ping timeout after 10 seconds'')))
           [] 10000 (Some ''Ping error: refused''))) [] 10000 (Some ''Ping failed: '')) = ''offline''
   \<and> consecutive_failures (snd (determine_status
           ((DeviceMonitor_init device_router_01)\<lparr>consecutive_failures := 2\<rparr>)
           [(''latency'', 12)] 12 None)) = 0"
  using three_failures_then_offline[of "DeviceMonitor_init device_router_01"
     "Some ''Ping timeout after 10 seconds''" "Some ''Ping error: refused''" "Some ''Ping failed: ''" None
     "[]" 10000 "[]" 10000 "[]" 10000
     "(DeviceMonitor_init device_router_01)\<lparr>consecutive_failures := 2\<rparr>" "[(''latency'', 12)]" 12]
  by (simp add: truthy_def DeviceMonitor_init_def)

section \<open>Properties of the aggregator\<close>

lemma py_min_key_split:
  "\<exists>pre post. best # xs = pre @ py_min_key f best xs # post
     \<and> (\<forall>p \<in> set pre. f (py_min_key f best xs) < f p)
     \<and> (\<forall>q \<in> set post. f (py_min_key f best xs) \<le> f q)"
proof (induction xs arbitrary: best)
  case Nil
  show ?case by (rule exI[of _ "[]"], rule exI[of _ "[]"]) simp
next
  case (Cons x xs)
  show ?case
  proof (cases "f x < f best")
    case True
    then have eq: "py_min_key f best (x # xs) = py_min_key f x xs" by simp
    define m where "m = py_min_key f x xs"
    from Cons.IH[of x] obtain pre post where
      s: "x # xs = pre @ m # post"
      and a: "\<forall>p \<in> set pre. f m < f p"
      and b: "\<forall>q \<in> set post. f m \<le> f q" unfolding m_def by blast
    have "f m \<le> f x"
      using s a by (cases pre) auto
    with True have lt: "f m < f best" by simp
    have "best # x # xs = (best # pre) @ m # post" using s by simp
    moreover have "\<forall>p \<in> set (best # pre). f m < f p" using a lt by simp
    ultimately show ?thesis unfolding eq m_def[symmetric] using b by blast
  next
    case False
    then have eq: "py_min_key f best (x # xs) = py_min_key f best xs" by simp
    define m where "m = py_min_key f best xs"
    from Cons.IH[of best] obtain pre post where
      s: "best # xs = pre @ m # post"
      and a: "\<forall>p \<in> set pre. f m < f p"
      and b: "\<forall>q \<in> set post. f m \<le> f q" unfolding m_def by blast
    show ?thesis
    proof (cases pre)
      case Nil
      with s have m: "m = best" and p: "post = xs" by simp_all
      have "best # x # xs = [] @ m # (x # xs)" using m by simp
      moreover have "\<forall>q \<in> set (x # xs). f m \<le> f q" using b p m False by simp
      moreover have "\<forall>p \<in> set ([]::'a list). f m < f p" by simp
      ultimately show ?thesis unfolding eq m_def[symmetric] by blast
    next
      case (Cons p pre')
      with s have pb: "p = best" and s': "xs = pre' @ m # post" by simp_all
      from a Cons pb have lt: "f m < f best" by simp
      with False have ltx: "f m < f x" by simp
      have "best # x # xs = (best # x # pre') @ m # post"
        using s' by simp
      moreover have "\<forall>p \<in> set (best # x # pre'). f m < f p" using a lt ltx Cons by simp
      ultimately show ?thesis unfolding eq m_def[symmetric] using b by blast
    qed
  qed
qed

lemma priority_of_known:
  "status r \<in> {''offline'', ''critical'', ''warning'', ''online''} \<Longrightarrow>
   priority_of r = (if status r = ''offline'' then 0 else if status r = ''critical'' then 1
                    else if status r = ''warning'' then 2 else 3)"
  by (auto simp: priority_of_def dict_get_def status_priority_def)

text \<open>
  C3. For a non-empty list of samples (a first one and the rest) with statuses among
  offline, critical, warning and online, the aggregated status is the status of the sample
  that \<open>worst_status\<close> selects; that sample is the first one of the list whose priority is
  least (every sample before it has a strictly greater priority, none after it a smaller
  one); and its status is the worst one present under
  offline < critical < warning < online.
\<close>

theorem aggregated_status_is_worst:
  assumes known: "\<forall>r \<in> set (r0 # rest). status r \<in> {''offline'', ''critical'', ''warning'', ''online''}"
  shows "\<exists>c pre post. combine_monitoring_results now (r0 # rest) = Some c
           \<and> status c = status (worst_status r0 rest)
           \<and> r0 # rest = pre @ worst_status r0 rest # post
           \<and> (\<forall>p \<in> set pre. priority_of (worst_status r0 rest) < priority_of p)
           \<and> (\<forall>q \<in> set post. priority_of (worst_status r0 rest) \<le> priority_of q)
           \<and> status c =
               (if \<exists>r \<in> set (r0 # rest). status r = ''offline'' then ''offline''
                else if \<exists>r \<in> set (r0 # rest). status r = ''critical'' then ''critical''
                else if \<exists>r \<in> set (r0 # rest). status r = ''warning'' then ''warning''
                else ''online'')"
proof -
  define results where "results = r0 # rest"
  have r: "results = r0 # rest" by (simp add: results_def)
  note known = known[folded results_def]
  define m where "m = worst_status r0 rest"
  define c where "c = the (combine_monitoring_results now results)"
  have c: "combine_monitoring_results now results = Some c" and st: "status c = status m"
    by (simp_all add: c_def m_def r combine_monitoring_results_def Let_def)
  from py_min_key_split[of r0 rest priority_of] obtain pre post where
    s: "results = pre @ m # post"
    and a: "\<forall>p \<in> set pre. priority_of m < priority_of p"
    and b: "\<forall>q \<in> set post. priority_of m \<le> priority_of q"
    unfolding m_def r worst_status_def by blast
  have le: "priority_of m \<le> priority_of x" if "x \<in> set results" for x
    using that a b unfolding s by auto
  have mem: "m \<in> set results" unfolding s by simp
  have km: "status m \<in> {''offline'', ''critical'', ''warning'', ''online''}"
    using known mem by blast
  have pk: "priority_of x = (if status x = ''offline'' then 0 else if status x = ''critical'' then 1
                    else if status x = ''warning'' then 2 else 3)" if "x \<in> set results" for x
    using priority_of_known known that by blast
  have w: "status m =
               (if \<exists>r \<in> set results. status r = ''offline'' then ''offline''
                else if \<exists>r \<in> set results. status r = ''critical'' then ''critical''
                else if \<exists>r \<in> set results. status r = ''warning'' then ''warning''
                else ''online'')"
  proof (cases "\<exists>r \<in> set results. status r = ''offline''")
    case True
    then obtain x where x: "x \<in> set results" "status x = ''offline''" by blast
    with le[OF x(1)] pk[OF x(1)] pk[OF mem] have "status m = ''offline''"
      by (simp split: if_splits)
    with True show ?thesis by simp
  next
    case no: False
    show ?thesis
    proof (cases "\<exists>r \<in> set results. status r = ''critical''")
      case True
      then obtain x where x: "x \<in> set results" "status x = ''critical''" by blast
      from no mem have "status m \<noteq> ''offline''" by blast
      with le[OF x(1)] pk[OF x(1)] pk[OF mem] x have "status m = ''critical''"
        by (simp split: if_splits)
      with True no show ?thesis by simp
    next
      case nc: False
      show ?thesis
      proof (cases "\<exists>r \<in> set results. status r = ''warning''")
        case True
        then obtain x where x: "x \<in> set results" "status x = ''warning''" by blast
        from no nc mem have "status m \<noteq> ''offline''" "status m \<noteq> ''critical''" by blast+
        with le[OF x(1)] pk[OF x(1)] pk[OF mem] x have "status m = ''warning''"
          by (simp split: if_splits)
        with True no nc show ?thesis by simp
      next
        case nw: False
        from no nc nw mem km have "status m = ''online''" by blast
        with no nc nw show ?thesis by simp
      qed
    qed
  qed
  from w st have w': "status c =
               (if \<exists>r \<in> set results. status r = ''offline'' then ''offline''
                else if \<exists>r \<in> set results. status r = ''critical'' then ''critical''
                else if \<exists>r \<in> set results. status r = ''warning'' then ''warning''
                else ''online'')" by (simp only:)
  show ?thesis
    unfolding results_def[symmetric] m_def[symmetric]
    by (intro exI[of _ c] exI[of _ pre] exI[of _ post] conjI)
       (fact c s st a b w')+
qed

theorem aggregated_status_is_worst_witness:
  "\<exists>c. combine_monitoring_results 0
      [\<lparr>device_id = ''device_firewall_01'', timestamp = 0, status = ''warning'',
         metrics = [(''latency'', 2500)], response_time = 2500, last_error = None,
         monitoring_method = ''ping''\<rparr>,
       \<lparr>device_id = ''device_firewall_01'', timestamp = 0, status = ''critical'',
         metrics = [(''cpu_usage'', 95)], response_time = 40, last_error = None,
         monitoring_method = ''http''\<rparr>,
       \<lparr>device_id = ''device_firewall_01'', timestamp = 0, status = ''critical'',
         metrics = [(''cpu_usage'', 96)], response_time = 900, last_error = None,
         monitoring_method = ''snmp''\<rparr>] = Some c
     \<and> status c = ''critical''
     \<and> worst_status
          \<lparr>device_id = ''device_firewall_01'', timestamp = 0, status = ''warning'',
            metrics = [(''latency'', 2500)], response_time = 2500, last_error = None,
            monitoring_method = ''ping''\<rparr>
          [\<lparr>device_id = ''device_firewall_01'', timestamp = 0, status = ''critical'',
             metrics = [(''cpu_usage'', 95)], response_time = 40, last_error = None,
             monitoring_method = ''http''\<rparr>,
           \<lparr>device_id = ''device_firewall_01'', timestamp = 0, status = ''critical'',
             metrics = [(''cpu_usage'', 96)], response_time = 900, last_error = None,
             monitoring_method = ''snmp''\<rparr>]
        = \<lparr>device_id = ''device_firewall_01'', timestamp = 0, status = ''critical'',
            metrics = [(''cpu_usage'', 95)], response_time = 40, last_error = None,
            monitoring_method = ''http''\<rparr>"
proof -
  define r0 where "r0 = \<lparr>device_id = ''device_firewall_01'', timestamp = 0, status = ''warning'',
         metrics = [(''latency'', 2500)], response_time = 2500, last_error = None,
         monitoring_method = ''ping''\<rparr>"
  define r1 where "r1 = \<lparr>device_id = ''device_firewall_01'', timestamp = 0, status = ''critical'',
         metrics = [(''cpu_usage'', 95)], response_time = 40, last_error = None,
         monitoring_method = ''http''\<rparr>"
  define r2 where "r2 = \<lparr>device_id = ''device_firewall_01'', timestamp = 0, status = ''critical'',
         metrics = [(''cpu_usage'', 96)], response_time = 900, last_error = None,
         monitoring_method = ''snmp''\<rparr>"
  have k: "\<forall>r \<in> set (r0 # [r1, r2]). status r \<in> {''offline'', ''critical'', ''warning'', ''online''}"
    by (simp add: r0_def r1_def r2_def)
  from aggregated_status_is_worst[OF k, of 0] obtain c pre post where
    c: "combine_monitoring_results 0 (r0 # [r1, r2]) = Some c"
    and sw: "status c = status (worst_status r0 [r1, r2])"
    and sp: "r0 # [r1, r2] = pre @ worst_status r0 [r1, r2] # post"
    and a: "\<forall>p \<in> set pre. priority_of (worst_status r0 [r1, r2]) < priority_of p"
    and b: "\<forall>q \<in> set post. priority_of (worst_status r0 [r1, r2]) \<le> priority_of q"
    by blast
  have p: "priority_of r0 = 2" "priority_of r1 = 1" "priority_of r2 = 1"
    by (simp_all add: priority_of_def dict_get_def status_priority_def r0_def r1_def r2_def)
  have w: "worst_status r0 [r1, r2] = r1"
    by (simp add: worst_status_def p)
  from sw w have "status c = ''critical''" by (simp add: r1_def)
  with c w show ?thesis unfolding r0_def r1_def r2_def by simp
qed

lemma map_of_dict_set: "map_of (dict_set d k v) = (map_of d)(k \<mapsto> v)"
  by (induction d k v rule: dict_set.induct) (auto simp: fun_eq_iff)

lemma keys_dict_set: "fst ` set (dict_set d k v) = insert k (fst ` set d)"
  by (induction d k v rule: dict_set.induct) auto

lemma distinct_dict_set: "distinct (map fst d) \<Longrightarrow> distinct (map fst (dict_set d k v))"
  by (induction d k v rule: dict_set.induct) (auto simp: keys_dict_set)

lemma map_of_dict_update:
  "distinct (map fst other) \<Longrightarrow> map_of (dict_update d other) = map_of d ++ map_of other"
  unfolding dict_update_def
proof (induction other arbitrary: d)
  case Nil show ?case by simp
next
  case (Cons a other)
  obtain k v where a: "a = (k, v)" by (cases a)
  from Cons.prems a have nk: "map_of other k = None" and d: "distinct (map fst other)"
    by (auto simp: map_of_eq_None_iff)
  show ?case using Cons.IH[OF d, of "dict_set d k v"] nk
    by (auto simp: a map_of_dict_set fun_eq_iff map_add_def split: option.splits)
qed

lemma keys_dict_update:
  "fst ` set (dict_update d other) = fst ` set d \<union> fst ` set other"
  unfolding dict_update_def
proof (induction other arbitrary: d)
  case Nil show ?case by simp
next
  case (Cons a other)
  obtain k v where a: "a = (k, v)" by (cases a)
  show ?case unfolding a using Cons.IH[of "dict_set d k v"]
    by (simp add: keys_dict_set Un_commute insert_commute)
qed

lemma distinct_dict_update: "distinct (map fst d) \<Longrightarrow> distinct (map fst (dict_update d other))"
  unfolding dict_update_def
  by (induction other arbitrary: d) (auto simp: distinct_dict_set)


lemma map_of_merge_fold:
  "\<forall>r \<in> set results. distinct (map fst (metrics r)) \<Longrightarrow>
   map_of (foldl (\<lambda>acc r. dict_update acc (metrics r)) d results)
     = foldl (\<lambda>m r. m ++ map_of (metrics r)) (map_of d) results"
  by (induction results arbitrary: d) (simp_all add: map_of_dict_update)

lemma keys_merge_fold:
  "fst ` set (foldl (\<lambda>acc r. dict_update acc (metrics r)) d results)
     = fst ` set d \<union> (\<Union>r \<in> set results. fst ` set (metrics r))"
  by (induction results arbitrary: d) (simp_all add: keys_dict_update Un_assoc)

lemma distinct_merge_fold:
  "distinct (map fst d) \<Longrightarrow>
   distinct (map fst (foldl (\<lambda>acc r. dict_update acc (metrics r)) d results))"
  by (induction results arbitrary: d) (simp_all add: distinct_dict_update)

lemma fold_maps_untouched:
  "\<forall>q \<in> set post. map_of (metrics q) k = None \<Longrightarrow>
   foldl (\<lambda>m r. m ++ map_of (metrics r)) m0 post k = m0 k"
  by (induction post arbitrary: m0) (simp_all add: map_add_def)

lemma merge_metrics_last_wins:
  assumes d: "\<forall>r \<in> set results. distinct (map fst (metrics r))"
    and s: "results = pre @ r # post"
    and k: "k \<in> set (dict_keys (metrics r))"
    and u: "\<forall>q \<in> set post. k \<notin> set (dict_keys (metrics q))"
  shows "map_of (merge_metrics results) k = map_of (metrics r) k"
proof -
  from k obtain v where v: "map_of (metrics r) k = Some v"
    by (cases "map_of (metrics r) k") (auto simp: dict_keys_def map_of_eq_None_iff)
  from u have u': "\<forall>q \<in> set post. map_of (metrics q) k = None"
    by (simp add: dict_keys_def map_of_eq_None_iff)
  have "map_of (merge_metrics results) k
      = foldl (\<lambda>m r. m ++ map_of (metrics r)) (map_of []) results k"
    unfolding merge_metrics_def using map_of_merge_fold[OF d, of "[]"] by simp
  also have "\<dots> = (foldl (\<lambda>m r. m ++ map_of (metrics r)) (map_of []) pre ++ map_of (metrics r)) k"
    unfolding s using fold_maps_untouched[OF u'] by simp
  also have "\<dots> = map_of (metrics r) k" using v by (simp add: map_add_def)
  finally show ?thesis .
qed

text \<open>
  C7. For a non-empty list of per-probe samples (each metric map a dict, that is, with
  distinct keys), the aggregated metric map has as its keys exactly the union of the
  samples' keys, and a key takes the value of the last sample, in probe order, that has it.
\<close>

theorem aggregated_metrics_union_last_wins:
  assumes "results \<noteq> []"
    and "\<forall>r \<in> set results. distinct (dict_keys (metrics r))"
  shows "\<exists>c. combine_monitoring_results now results = Some c
           \<and> set (dict_keys (metrics c)) = (\<Union>r \<in> set results. set (dict_keys (metrics r)))
           \<and> distinct (dict_keys (metrics c))
           \<and> (\<forall>pre r post k. results = pre @ r # post \<and> k \<in> set (dict_keys (metrics r))
                  \<and> (\<forall>q \<in> set post. k \<notin> set (dict_keys (metrics q)))
                \<longrightarrow> map_of (metrics c) k = map_of (metrics r) k)"
proof -
  from assms(1) obtain r0 rest where r: "results = r0 # rest" by (cases results) auto
  define c where "c = the (combine_monitoring_results now results)"
  have c: "combine_monitoring_results now results = Some c"
    and m: "metrics c = merge_metrics results"
    by (simp_all add: c_def r combine_monitoring_results_def Let_def)
  have d: "\<forall>r \<in> set results. distinct (map fst (metrics r))"
    using assms(2) by (simp add: dict_keys_def)
  have 1: "set (dict_keys (metrics c)) = (\<Union>r \<in> set results. set (dict_keys (metrics r)))"
    unfolding m merge_metrics_def dict_keys_def using keys_merge_fold[of "[]" results] by simp
  have 2: "distinct (dict_keys (metrics c))"
    unfolding m merge_metrics_def dict_keys_def by (rule distinct_merge_fold) simp
  have 3: "map_of (metrics c) k = map_of (metrics r) k"
    if "results = pre @ r # post" "k \<in> set (dict_keys (metrics r))"
       "\<forall>q \<in> set post. k \<notin> set (dict_keys (metrics q))" for pre r post k
    unfolding m using merge_metrics_last_wins[OF d that] .
  from c 1 2 3 show ?thesis by blast
qed


theorem aggregated_metrics_union_last_wins_witness:
  "\<exists>c. combine_monitoring_results 0
      [\<lparr>device_id = ''device_router_01'', timestamp = 0, status = ''online'',
         metrics = [(''latency'', 12), (''uptime'', 100)], response_time = 12, last_error = None,
         monitoring_method = ''ping''\<rparr>,
       \<lparr>device_id = ''device_router_01'', timestamp = 0, status = ''online'',
         metrics = [(''uptime'', 995 / 10), (''latency'', 15)], response_time = 40, last_error = None,
         monitoring_method = ''snmp''\<rparr>] = Some c
      \<and> set (dict_keys (metrics c)) = {''latency'', ''uptime''}
      \<and> map_of (metrics c) ''latency'' = Some 15"
proof -
  define r1 where "r1 = \<lparr>device_id = ''device_router_01'', timestamp = 0, status = ''online'',
         metrics = [(''latency'', 12), (''uptime'', 100)], response_time = 12, last_error = None,
         monitoring_method = ''ping''\<rparr>"
  define r2 where "r2 = \<lparr>device_id = ''device_router_01'', timestamp = 0, status = ''online'',
         metrics = [(''uptime'', 995 / 10), (''latency'', 15)], response_time = 40, last_error = None,
         monitoring_method = ''snmp''\<rparr>"
  have 1: "[r1, r2] \<noteq> []" by simp
  have 2: "\<forall>r \<in> set [r1, r2]. distinct (dict_keys (metrics r))"
    by (simp add: r1_def r2_def dict_keys_def)
  from aggregated_metrics_union_last_wins[OF 1 2, of 0] obtain c where
    c: "combine_monitoring_results 0 [r1, r2] = Some c"
    and k: "set (dict_keys (metrics c)) = (\<Union>r \<in> set [r1, r2]. set (dict_keys (metrics r)))"
    and l: "\<And>pre r post k. [r1, r2] = pre @ r # post \<and> k \<in> set (dict_keys (metrics r))
                  \<and> (\<forall>q \<in> set post. k \<notin> set (dict_keys (metrics q)))
                \<Longrightarrow> map_of (metrics c) k = map_of (metrics r) k" by blast
  have k': "set (dict_keys (metrics c)) = {''latency'', ''uptime''}"
    unfolding k by (auto simp: r1_def r2_def dict_keys_def)
  have "map_of (metrics c) ''latency'' = map_of (metrics r2) ''latency''"
    by (rule l[of "[r1]" r2 "[]"]) (simp add: r2_def dict_keys_def)
  then have "map_of (metrics c) ''latency'' = Some 15" by (simp add: r2_def)
  with c k' show ?thesis unfolding r1_def r2_def by blast
qed


section \<open>Properties of the reachability probe\<close>

lemma starts_with_iff: "starts_with p s \<longleftrightarrow> take (length p) s = p"
  by (induction p s rule: starts_with.induct) auto

lemma contains_iff: "contains sub s \<longleftrightarrow> (\<exists>x y. s = x @ sub @ y)"
proof (induction s)
  case Nil
  show ?case by auto
next
  case (Cons c cs)
  have "starts_with sub (c # cs) \<longleftrightarrow> (\<exists>y. c # cs = sub @ y)"
    unfolding starts_with_iff by (metis append_eq_conv_conj append_take_drop_id)
  moreover have "(\<exists>x y. c # cs = x @ sub @ y)
      \<longleftrightarrow> (\<exists>y. c # cs = sub @ y) \<or> (\<exists>x y. cs = x @ sub @ y)"
  proof
    assume "\<exists>x y. c # cs = x @ sub @ y"
    then obtain x y where e: "c # cs = x @ sub @ y" by blast
    show "(\<exists>y. c # cs = sub @ y) \<or> (\<exists>x y. cs = x @ sub @ y)"
    proof (cases x)
      case Nil with e show ?thesis by auto
    next
      case (Cons x1 x') with e show ?thesis by auto
    qed
  next
    assume "(\<exists>y. c # cs = sub @ y) \<or> (\<exists>x y. cs = x @ sub @ y)"
    then show "\<exists>x y. c # cs = x @ sub @ y"
    proof
      assume "\<exists>y. c # cs = sub @ y"
      then show ?thesis by (metis append_Nil)
    next
      assume "\<exists>x y. cs = x @ sub @ y"
      then show ?thesis by (metis append_Cons)
    qed
  qed
  ultimately show ?case using Cons.IH by simp
qed

lemma contains_char: "contains [x] s \<longleftrightarrow> x \<in> set s"
  by (induction s) auto

lemma lower_append: "lower (a @ b) = lower a @ lower b"
  by (simp add: lower_def)

lemma take_prefix: "n \<le> length x \<Longrightarrow> take n (x @ y) = take n x"
  by simp

lemma split_go_first:
  assumes "sep \<noteq> []" and "\<not> contains sep (a @ butlast sep)"
  shows "split_go sep 0 acc (a @ sep @ r)
           = (rev acc @ a) # split_go sep (length sep - 1) [] (tl sep @ r)"
  using assms(2)
proof (induction a arbitrary: acc)
  case Nil
  from assms(1) obtain c cs where s: "sep = c # cs" by (cases sep) auto
  have "starts_with sep (sep @ r)" by (simp add: starts_with_iff)
  then show ?case by (simp add: s)
next
  case (Cons c a)
  have n: "\<not> starts_with sep (c # a @ sep @ r)"
  proof
    assume "starts_with sep (c # a @ sep @ r)"
    then have t: "take (length sep) (c # a @ sep @ r) = sep" by (simp add: starts_with_iff)
    have e: "sep @ r = butlast sep @ ([last sep] @ r)"
      using assms(1) by (metis append.assoc append_butlast_last_id)
    have "take (length sep) (c # a @ sep @ r)
            = take (length sep) ((c # a @ butlast sep) @ ([last sep] @ r))"
      by (subst e) simp
    also have "\<dots> = take (length sep) (c # a @ butlast sep)"
      by (rule take_prefix) simp
    finally have "take (length sep) (c # a @ butlast sep) = sep" using t by simp
    then have "starts_with sep (c # a @ butlast sep)" by (simp add: starts_with_iff)
    with Cons.prems show False by simp
  qed
  from Cons.prems have "\<not> contains sep (a @ butlast sep)" by simp
  from Cons.IH[OF this, of "c # acc"] n show ?case by simp
qed

lemma split_go_skip:
  "length x = k \<Longrightarrow> split_go sep k acc (x @ s) = split_go sep 0 acc s"
  by (induction x arbitrary: k) auto

lemma split_go_head: "\<exists>x xs. split_go sep k acc s = (rev acc @ x) # xs"
proof (induction s arbitrary: k acc)
  case Nil
  show ?case by simp
next
  case (Cons c cs)
  show ?case
  proof (cases "k > 0")
    case True
    with Cons.IH[of "k - 1" acc] show ?thesis by simp
  next
    case False
    show ?thesis
    proof (cases "starts_with sep (c # cs)")
      case True
      with False show ?thesis by simp
    next
      case n: False
      from Cons.IH[of 0 "c # acc"] obtain x xs where
        "split_go sep 0 (c # acc) cs = (rev (c # acc) @ x) # xs" by blast
      with False n show ?thesis by simp
    qed
  qed
qed

lemma split_time:
  assumes "\<not> contains ''time='' (a @ ''time'')"
  shows "\<exists>x xs. split_sep ''time='' (a @ ''time=23.4 ms'' @ b) = a # (''23.4 ms'' @ x) # xs"
proof -
  have 1: "split_go ''time='' 0 [] (a @ ''time='' @ (''23.4 ms'' @ b))
         = a # split_go ''time='' (length ''time='' - 1) [] (tl ''time='' @ (''23.4 ms'' @ b))"
    using split_go_first[of "''time=''" a "[]" "''23.4 ms'' @ b"] assms by simp
  have 2: "split_go ''time='' (length ''time='' - 1) [] (tl ''time='' @ (''23.4 ms'' @ b))
         = split_go ''time='' 0 [] (''23.4 ms'' @ b)"
    by (rule split_go_skip) simp
  have 3: "split_go ''time='' 0 [] (''23.4 ms'' @ b) = split_go ''time='' 0 (rev ''23.4 ms'') b"
    by simp
  from split_go_head[of "''time=''" 0 "rev ''23.4 ms''" b] obtain x xs where
    4: "split_go ''time='' 0 (rev ''23.4 ms'') b = (''23.4 ms'' @ x) # xs" by auto
  have "split_sep ''time='' (a @ ''time=23.4 ms'' @ b)
       = split_go ''time='' 0 [] (a @ ''time='' @ (''23.4 ms'' @ b))"
    by (simp add: split_sep_def)
  with 1 2 3 4 show ?thesis by simp
qed

lemma split_ws_time: "\<exists>ts. split_ws (''23.4 ms'' @ x) = ''23.4'' # ts"
  by (simp add: split_ws_def is_space_def)

lemma float_time: "py_float (replace ''ms'' [] ''23.4'') = Some (234 / 10)"
  by code_simp

lemma time_loop_skip:
  "\<forall>l \<in> set pre. \<not> contains ''time='' (lower l) \<Longrightarrow> time_loop (pre @ ls) = time_loop ls"
  by (induction pre) simp_all

lemma lower_time: "lower ''time=23.4 ms'' = ''time=23.4 ms''"
  by code_simp

lemma time_loop_found:
  assumes "\<forall>l \<in> set pre. \<not> contains ''time='' (lower l)"
    and "\<not> contains ''time='' (a @ ''time'')"
  shows "time_loop (pre @ (a @ ''time=23.4 ms'' @ b) # post) = Inr (Some (234 / 10))"
proof -
  have c: "contains ''time='' (lower (a @ ''time=23.4 ms'' @ b))"
    unfolding contains_iff lower_append lower_time
    by (rule exI[of _ "lower a"], rule exI[of _ "''23.4 ms'' @ lower b"]) simp
  from split_time[OF assms(2), of b] obtain x xs where
    s: "split_sep ''time='' (a @ ''time=23.4 ms'' @ b) = a # (''23.4 ms'' @ x) # xs" by blast
  from split_ws_time[of x] obtain ts where w: "split_ws (''23.4 ms'' @ x) = ''23.4'' # ts" ..
  have "time_loop ((a @ ''time=23.4 ms'' @ b) # post) = Inr (Some (234 / 10))"
    using c s w float_time by simp
  with time_loop_skip[OF assms(1)] show ?thesis by simp
qed

lemma split_ws_go_append:
  "c \<noteq> [] \<Longrightarrow> is_space (last c) \<Longrightarrow>
     split_ws_go acc (c @ s) = split_ws_go acc c @ split_ws_go [] s"
proof (induction c arbitrary: acc)
  case Nil
  then show ?case by simp
next
  case (Cons x c)
  show ?case
  proof (cases "c = []")
    case True
    with Cons.prems show ?thesis by simp
  next
    case False
    with Cons.prems have "is_space (last c)" by simp
    from Cons.IH[OF False this] show ?thesis by simp
  qed
qed

lemma split_ws_go_chars: "t \<in> set (split_ws_go acc c) \<Longrightarrow> set t \<subseteq> set acc \<union> set c"
proof (induction c arbitrary: acc)
  case Nil
  then show ?case by (auto split: if_splits)
next
  case (Cons x c)
  show ?case
  proof (cases "is_space x")
    case True
    with Cons.prems have "t = rev acc \<or> t \<in> set (split_ws_go [] c)" by (auto split: if_splits)
    with Cons.IH[of "[]"] show ?thesis by auto
  next
    case False
    with Cons.prems have "t \<in> set (split_ws_go (x # acc) c)" by simp
    from Cons.IH[OF this] show ?thesis by auto
  qed
qed

lemma part_loop_skip:
  "\<forall>t \<in> set ts. \<not> contains ''%'' t \<Longrightarrow> part_loop (ts @ rest) = part_loop rest"
  by (induction ts) simp_all

lemma loss_loop_skip:
  "\<forall>l \<in> set pre. \<not> contains ''% packet loss'' l \<and> \<not> contains ''% loss'' l \<Longrightarrow>
     loss_loop (pre @ ls) = loss_loop ls"
  by (induction pre) simp_all

lemma float_loss: "py_float (replace ''%'' [] ''0%'') = Some 0"
  by code_simp

lemma split_ws_loss:
  "\<exists>ts. split_ws_go [] (''0% packet loss'' @ d) = ''0%'' # ''packet'' # ts"
  by (simp add: is_space_def)

lemma part_loop_found:
  assumes "CHR ''%'' \<notin> set c" and "c = [] \<or> is_space (last c)"
  shows "part_loop (split_ws (c @ ''0% packet loss'' @ d)) = Inr (Some 0)"
proof -
  from split_ws_loss[of d] obtain ts where
    w: "split_ws_go [] (''0% packet loss'' @ d) = ''0%'' # ''packet'' # ts" ..
  have p: "part_loop (''0%'' # ''packet'' # ts) = Inr (Some 0)"
    using float_loss by simp
  show ?thesis
  proof (cases "c = []")
    case True
    with w p show ?thesis by (simp add: split_ws_def)
  next
    case False
    with assms(2) have "is_space (last c)" by simp
    then have s0: "split_ws_go [] (c @ s) = split_ws_go [] c @ split_ws_go [] s" for s
      by (rule split_ws_go_append[OF False])
    have s: "split_ws (c @ ''0% packet loss'' @ d) = split_ws_go [] c @ ''0%'' # ''packet'' # ts"
      by (simp only: split_ws_def s0 w)
    have "\<forall>t \<in> set (split_ws_go [] c). \<not> contains ''%'' t"
      using split_ws_go_chars[of _ "[]" c] assms(1) by (auto simp: contains_char)
    from part_loop_skip[OF this] p s show ?thesis by simp
  qed
qed

lemma loss_loop_found:
  assumes "\<forall>l \<in> set pre. \<not> contains ''% packet loss'' l \<and> \<not> contains ''% loss'' l"
    and "CHR ''%'' \<notin> set c" and "c = [] \<or> is_space (last c)"
  shows "loss_loop (pre @ (c @ ''0% packet loss'' @ d) # post) = Inr (Some 0)"
proof -
  have "contains ''% packet loss'' (c @ ''0% packet loss'' @ d)"
    unfolding contains_iff by (rule exI[of _ "c @ ''0''"], rule exI[of _ d]) simp
  then have "loss_loop ((c @ ''0% packet loss'' @ d) # post) = Inr (Some 0)"
    using part_loop_found[OF assms(2,3), of d] by simp
  with loss_loop_skip[OF assms(1)] show ?thesis by simp
qed

lemma parse_ping_output_found:
  assumes "split_sep [CHR 0x0A] output = pre @ (a @ ''time=23.4 ms'' @ b) # post"
    and "\<forall>l \<in> set pre. \<not> contains ''time='' (lower l)"
    and "\<not> contains ''time='' (a @ ''time'')"
    and "split_sep [CHR 0x0A] output = pre' @ (c @ ''0% packet loss'' @ d) # post'"
    and "\<forall>l \<in> set pre'. \<not> contains ''% packet loss'' l \<and> \<not> contains ''% loss'' l"
    and "CHR ''%'' \<notin> set c" and "c = [] \<or> is_space (last c)"
  shows "parse_ping_output output = Inr (234 / 10, 0)"
proof -
  have t: "time_loop (split_sep [CHR 0x0A] output) = Inr (Some (234 / 10))"
    unfolding assms(1) by (rule time_loop_found[OF assms(2,3)])
  have l: "loss_loop (split_sep [CHR 0x0A] output) = Inr (Some 0)"
    unfolding assms(4) by (rule loss_loop_found[OF assms(5,6,7)])
  show ?thesis
    by (simp add: parse_ping_output_def Let_def t l bind_res_def try_except_def)
qed

text \<open>
  C8 (as amended). Take a successful ping (return code 0) and the lines of its output.
  If the first line that contains \<^verbatim>\<open>time=\<close> in any letter case has \<^verbatim>\<open>23.4 ms\<close> right
  after its first \<^verbatim>\<open>time=\<close>, and the first line that contains \<^verbatim>\<open>% packet loss\<close> or
  \<^verbatim>\<open>% loss\<close> holds \<^verbatim>\<open>0% packet loss\<close> with no percent sign before it and with its
  \<^verbatim>\<open>0\<close> at the start of the line or after white space, then the sample has metrics
  latency 23.4, packet_loss 0, uptime 100 and, under the default threshold maps, status
  \<open>online\<close>; the failure counter is zero afterwards, whatever it was.
\<close>

theorem ping_scenario_online:
  assumes "critical_thresholds (config self) = default_critical_thresholds"
    and "warning_thresholds (config self) = default_warning_thresholds"
    and "split_sep [CHR 0x0A] output = pre @ (a @ ''time=23.4 ms'' @ b) # post"
    and "\<forall>l \<in> set pre. \<not> contains ''time='' (lower l)"
    and "\<not> contains ''time='' (a @ ''time'')"
    and "split_sep [CHR 0x0A] output = pre' @ (c @ ''0% packet loss'' @ d) # post'"
    and "\<forall>l \<in> set pre'. \<not> contains ''% packet loss'' l \<and> \<not> contains ''% loss'' l"
    and "CHR ''%'' \<notin> set c"
    and "c = [] \<or> is_space (last c)"
  shows "PingMonitor_check_device self now (Ping_exited 0 (Inr output) err elapsed)
         = Inr (\<lparr>device_id = cfg_id (config self), timestamp = now, status = ''online'',
                  metrics = [(''latency'', 234 / 10), (''packet_loss'', 0), (''uptime'', 100)],
                  response_time = 234 / 10, last_error = None, monitoring_method = ''ping''\<rparr>,
                self\<lparr>consecutive_failures := 0\<rparr>)"
proof -
  have p: "parse_ping_output output = Inr (234 / 10, 0)"
    by (rule parse_ping_output_found[OF assms(3-9)])
  have t: "ping_try (config self) (Ping_exited 0 (Inr output) err elapsed)
           = Inr ([(''latency'', 234 / 10), (''packet_loss'', 0), (''uptime'', 100)], 234 / 10, None)"
    by (simp add: ping_try_def bind_res_def p Let_def)
  have d: "determine_status self [(''latency'', x), (''packet_loss'', 0), (''uptime'', 100)]
             x None = (''online'', self\<lparr>consecutive_failures := 0\<rparr>)" if "x < 2000" for x
    using that
    by (simp add: determine_status_def truthy_def assms(1,2) default_critical_thresholds_def
        default_warning_thresholds_def dict_get_def Let_def)
  show ?thesis
    by (simp add: PingMonitor_check_device_def t try_except_def bind_res_def d)
qed

theorem ping_scenario_online_witness:
  "PingMonitor_check_device (DeviceMonitor_init device_router_01) 1700000000
      (Ping_exited 0 (Inr ping_output_linux) (Inr []) 2050)
   = Inr (\<lparr>device_id = ''device_router_01'', timestamp = 1700000000, status = ''online'',
            metrics = [(''latency'', 234 / 10), (''packet_loss'', 0), (''uptime'', 100)],
            response_time = 234 / 10, last_error = None, monitoring_method = ''ping''\<rparr>,
          DeviceMonitor_init device_router_01)
   \<and> PingMonitor_check_device (DeviceMonitor_init device_router_01) 1700000000
      (Ping_exited 0 (Inr ping_output_minimal) (Inr []) 2050)
   = Inr (\<lparr>device_id = ''device_router_01'', timestamp = 1700000000, status = ''online'',
            metrics = [(''latency'', 234 / 10), (''packet_loss'', 0), (''uptime'', 100)],
            response_time = 234 / 10, last_error = None, monitoring_method = ''ping''\<rparr>,
          DeviceMonitor_init device_router_01)"
proof -
  have th: "critical_thresholds (config (DeviceMonitor_init device_router_01)) = default_critical_thresholds"
    "warning_thresholds (config (DeviceMonitor_init device_router_01)) = default_warning_thresholds"
    by (simp_all add: DeviceMonitor_init_def device_router_01_def post_init_def)
  have 1: "PingMonitor_check_device (DeviceMonitor_init device_router_01) 1700000000
      (Ping_exited 0 (Inr ping_output_linux) (Inr []) 2050)
    = Inr (\<lparr>device_id = cfg_id (config (DeviceMonitor_init device_router_01)),
             timestamp = 1700000000, status = ''online'',
             metrics = [(''latency'', 234 / 10), (''packet_loss'', 0), (''uptime'', 100)],
             response_time = 234 / 10, last_error = None, monitoring_method = ''ping''\<rparr>,
           (DeviceMonitor_init device_router_01)\<lparr>consecutive_failures := 0\<rparr>)"
  proof (rule ping_scenario_online[OF th,
        where pre = "[''PING 192.168.1.1 (192.168.1.1) 56(84) bytes of data.'']"
          and a = "''64 bytes from 192.168.1.1: icmp_seq=1 ttl=64 ''" and b = "[]"
          and post = "[''64 bytes from 192.168.1.1: icmp_seq=2 ttl=64 time=22.9 ms'',
                       ''64 bytes from 192.168.1.1: icmp_seq=3 ttl=64 time=24.1 ms'',
                       [],
                       ''--- 192.168.1.1 ping statistics ---'',
                       ''3 packets transmitted, 3 received, 0% packet loss, time 2003ms'',
                       ''rtt min/avg/max/mdev = 22.900/23.467/24.100/0.492 ms'',
                       []]"
          and pre' = "[''PING 192.168.1.1 (192.168.1.1) 56(84) bytes of data.'',
                       ''64 bytes from 192.168.1.1: icmp_seq=1 ttl=64 time=23.4 ms'',
                       ''64 bytes from 192.168.1.1: icmp_seq=2 ttl=64 time=22.9 ms'',
                       ''64 bytes from 192.168.1.1: icmp_seq=3 ttl=64 time=24.1 ms'',
                       [],
                       ''--- 192.168.1.1 ping statistics ---'']"
          and c = "''3 packets transmitted, 3 received, ''" and d = "'', time 2003ms''"
          and post' = "[''rtt min/avg/max/mdev = 22.900/23.467/24.100/0.492 ms'', []]"])
  qed code_simp+
  have 2: "PingMonitor_check_device (DeviceMonitor_init device_router_01) 1700000000
      (Ping_exited 0 (Inr ping_output_minimal) (Inr []) 2050)
    = Inr (\<lparr>device_id = cfg_id (config (DeviceMonitor_init device_router_01)),
             timestamp = 1700000000, status = ''online'',
             metrics = [(''latency'', 234 / 10), (''packet_loss'', 0), (''uptime'', 100)],
             response_time = 234 / 10, last_error = None, monitoring_method = ''ping''\<rparr>,
           (DeviceMonitor_init device_router_01)\<lparr>consecutive_failures := 0\<rparr>)"
  proof (rule ping_scenario_online[OF th,
        where pre = "[]" and a = "[]" and b = "[]" and post = "[''0% packet loss'']"
          and pre' = "[''time=23.4 ms'']" and c = "[]" and d = "[]" and post' = "[]"])
  qed code_simp+
  from 1 2 show ?thesis
    by (simp add: DeviceMonitor_init_def device_router_01_def post_init_def)
qed

text \<open>
  C8 as first stated fails: the parser stops at the first line with \<^verbatim>\<open>time=\<close>, so a
  report that holds both lines but whose first reply took 50.1 ms gives latency 50.1.
\<close>

theorem first_time_line_decides:
  "list_ex (contains ''time=23.4 ms'') (split_sep [CHR 0x0A] ping_output_slow_first)
   \<and> list_ex (contains ''0% packet loss'') (split_sep [CHR 0x0A] ping_output_slow_first)
   \<and> PingMonitor_check_device (DeviceMonitor_init device_router_01) 1700000000
      (Ping_exited 0 (Inr ping_output_slow_first) (Inr []) 2050)
   = Inr (\<lparr>device_id = ''device_router_01'', timestamp = 1700000000, status = ''online'',
            metrics = [(''latency'', 501 / 10), (''packet_loss'', 0), (''uptime'', 100)],
            response_time = 501 / 10, last_error = None, monitoring_method = ''ping''\<rparr>,
          DeviceMonitor_init device_router_01)"
  by code_simp

text \<open>
  The other conditions are needed as well. The test for \<^verbatim>\<open>time=\<close> ignores the letter
  case and the split that follows does not: after a line \<^verbatim>\<open>Time=1\<close> the parser raises
  and both values keep their initial value. And \<^verbatim>\<open>10% packet loss\<close> holds the text
  \<^verbatim>\<open>0% packet loss\<close>.
\<close>

lemma capital_time_line_stops_parse:
  "PingMonitor_check_device (DeviceMonitor_init device_router_01) 1700000000
      (Ping_exited 0 (Inr ping_output_capital_time) (Inr []) 2050)
   = Inr (\<lparr>device_id = ''device_router_01'', timestamp = 1700000000, status = ''warning'',
            metrics = [(''latency'', 2050), (''packet_loss'', 100), (''uptime'', 0)],
            response_time = 2050, last_error = None, monitoring_method = ''ping''\<rparr>,
          DeviceMonitor_init device_router_01)"
  by code_simp

lemma ten_percent_loss_is_read:
  "list_ex (contains ''0% packet loss'') (split_sep [CHR 0x0A] ping_output_ten_percent)
   \<and> PingMonitor_check_device (DeviceMonitor_init device_router_01) 1700000000
      (Ping_exited 0 (Inr ping_output_ten_percent) (Inr []) 2050)
   = Inr (\<lparr>device_id = ''device_router_01'', timestamp = 1700000000, status = ''online'',
            metrics = [(''latency'', 234 / 10), (''packet_loss'', 10), (''uptime'', 100)],
            response_time = 234 / 10, last_error = None, monitoring_method = ''ping''\<rparr>,
          DeviceMonitor_init device_router_01)"
  by code_simp

section \<open>Properties of the SNMP fallback\<close>

lemma determine_status_fresh_not_offline:
  "fst (determine_status (DeviceMonitor_init c) ms rt error) \<noteq> ''offline''"
  by (simp add: determine_status_def DeviceMonitor_init_def Let_def)

lemma PingMonitor_check_device_status:
  assumes "PingMonitor_check_device self now out = Inr (r, s')"
  shows "status r = fst (determine_status self (metrics r) (response_time r) (last_error r))"
  using assms
  by (auto simp: PingMonitor_check_device_def bind_res_def Let_def
      split: sum.splits prod.splits)

lemma PingMonitor_check_device_raises:
  assumes "PingMonitor_check_device self now out = Inl e"
  shows "\<not> isinstance e Exception"
  using assms
  by (auto simp: PingMonitor_check_device_def bind_res_def try_except_def Let_def
      split: sum.splits prod.splits if_splits)

text \<open>
  C10. With SNMP support unavailable, a call of the SNMP probe either lets an exception
  through that \<^verbatim>\<open>except Exception\<close> does not catch, or returns a sample tagged
  \<open>snmp_fallback_ping\<close> whose status is not \<open>offline\<close>, and leaves the SNMP
  monitor as it was: the ping monitor that counted the failure is dropped, so no number
  of consecutive failures reaches the limit.
\<close>

theorem snmp_fallback_never_offline:
  "case SNMPMonitor_check_device False self now out agent elapsed of
     Inl e \<Rightarrow> \<not> isinstance e Exception
   | Inr (sample, self') \<Rightarrow>
       status sample \<noteq> ''offline'' \<and> monitoring_method sample = ''snmp_fallback_ping''
       \<and> self' = self"
proof (cases "PingMonitor_check_device (DeviceMonitor_init (config self)) now out")
  case (Inl e)
  then show ?thesis
    using PingMonitor_check_device_raises[OF Inl]
    by (simp add: SNMPMonitor_check_device_def fallback_to_ping_def bind_res_def)
next
  case (Inr p)
  obtain r m where p: "p = (r, m)" by (cases p)
  from PingMonitor_check_device_status[OF Inr[unfolded p]] determine_status_fresh_not_offline
  have "status r \<noteq> ''offline''" by metis
  then show ?thesis
    by (simp add: SNMPMonitor_check_device_def fallback_to_ping_def bind_res_def Inr p)
qed


theorem snmp_fallback_never_offline_witness:
  "SNMPMonitor_check_device False
      ((DeviceMonitor_init device_router_01)\<lparr>consecutive_failures := 2\<rparr>) 0
      (Ping_raises (Exn TimeoutError [])) (\<lambda>oid. Snmp_result True False []) 0
   = Inr (\<lparr>device_id = ''device_router_01'', timestamp = 0, status = ''warning'',
            metrics = [(''latency'', 0), (''packet_loss'', 100), (''uptime'', 0)],
            response_time = 10000, last_error = Some ''Ping timeout after 10 seconds'',
            monitoring_method = ''snmp_fallback_ping''\<rparr>,
          (DeviceMonitor_init device_router_01)\<lparr>consecutive_failures := 2\<rparr>)"
proof -
  let ?self = "(DeviceMonitor_init device_router_01)\<lparr>consecutive_failures := 2\<rparr>"
  have n: "str_int 10 = ''10''" by code_simp
  have cfg: "config ?self = device_router_01" by (simp add: DeviceMonitor_init_def)
  have p: "PingMonitor_check_device (DeviceMonitor_init device_router_01) 0
             (Ping_raises (Exn TimeoutError []))
           = Inr (\<lparr>device_id = ''device_router_01'', timestamp = 0, status = ''warning'',
                    metrics = failed_ping_metrics, response_time = 10000,
                    last_error = Some ''Ping timeout after 10 seconds'',
                    monitoring_method = ''ping''\<rparr>,
                  (DeviceMonitor_init device_router_01)\<lparr>consecutive_failures := 1\<rparr>)"
    by (simp add: PingMonitor_check_device_def ping_try_def try_except_def bind_res_def
        isinstance_def issubclass_def n determine_status_def truthy_def Let_def
        DeviceMonitor_init_def device_router_01_def post_init_def)
  from snmp_fallback_never_offline[of ?self 0 "Ping_raises (Exn TimeoutError [])"
        "\<lambda>oid. Snmp_result True False []" 0]
  show ?thesis
    unfolding SNMPMonitor_check_device_def fallback_to_ping_def cfg p
    by (simp add: bind_res_def failed_ping_metrics_def)
qed

section \<open>Exceptions that the handlers catch\<close>

lemma isinstance_simps [simp]:
  "isinstance (Exn ValueError m) Exception" "isinstance (Exn IndexError m) Exception"
  "isinstance (Exn KeyError m) Exception" "isinstance (Exn TypeError m) Exception"
  "isinstance (Exn AttributeError m) Exception" "isinstance (Exn JSONDecodeError m) Exception"
  "isinstance (Exn TimeoutError m) Exception" "isinstance (Exn OverflowError m) Exception"
  by (simp_all add: isinstance_def issubclass_def)

lemma ordinary_bind:
  "ordinary_res m \<Longrightarrow> (\<And>x. m = Inr x \<Longrightarrow> ordinary_res (f x)) \<Longrightarrow> ordinary_res (bind_res m f)"
  by (cases m) (simp_all add: bind_res_def)

lemma ordinary_try_except:
  "ordinary_res body \<Longrightarrow> (\<And>e. body = Inl e \<Longrightarrow> ordinary_res (h e)) \<Longrightarrow> ordinary_res (try_except body cs h)"
  by (cases body) (simp_all add: try_except_def)

lemma try_except_Exception_returns:
  "ordinary_res body \<Longrightarrow> (\<And>e. \<exists>x. h e = Inr x) \<Longrightarrow> \<exists>x. try_except body [Exception] h = Inr x"
  by (cases body) (simp_all add: try_except_def)

section \<open>The reachability probe returns\<close>

lemma ordinary_float_str [simp]: "ordinary_res (float_str s)"
  by (simp add: float_str_def split: option.splits)

lemma ordinary_time_loop [simp]: "ordinary_res (time_loop ls)"
  by (induction ls) (simp_all split: list.splits option.splits)

lemma ordinary_part_loop [simp]: "ordinary_res (part_loop ps)"
  by (induction ps) (simp_all split: option.splits)

lemma ordinary_loss_loop [simp]: "ordinary_res (loss_loop ls)"
  by (induction ls) simp_all

lemma ordinary_parse_ping_output [simp]: "ordinary_res (parse_ping_output output)"
  unfolding parse_ping_output_def Let_def
  by (intro ordinary_try_except ordinary_bind) simp_all

lemma ordinary_ping_try: "ping_ordinary out \<Longrightarrow> ordinary_res (ping_try cfg out)"
  by (cases out) (auto simp: ping_try_def Let_def intro!: ordinary_bind split: prod.splits)

lemma ping_try_failed:
  assumes "ping_ordinary out" and "ping_failed out"
  shows "(\<exists>e. ping_try cfg out = Inl e \<and> isinstance e Exception)
       \<or> (\<exists>ms rt msg. ping_try cfg out = Inr (ms, rt, Some msg) \<and> msg \<noteq> [])"
proof (cases out)
  case (Ping_raises e)
  with assms show ?thesis by (simp add: ping_try_def)
next
  case (Ping_exited rc out_dec err_dec el)
  with assms show ?thesis
    by (cases out_dec; cases err_dec) (auto simp: ping_try_def bind_res_def)
qed

lemma PingMonitor_finish:
  assumes "ordinary_res (ping_try (config self) out)"
  shows "\<exists>sample self'. PingMonitor_check_device self now out = Inr (sample, self')
          \<and> (case ping_try (config self) out of
                Inl e \<Rightarrow> truthy (last_error sample)
              | Inr (ms, rt, err) \<Rightarrow> last_error sample = err \<and> metrics sample = ms)"
proof (cases "ping_try (config self) out")
  case (Inl e)
  with assms have "isinstance e Exception" by simp
  then show ?thesis
    by (cases "isinstance e TimeoutError")
       (auto simp: PingMonitor_check_device_def Inl try_except_def bind_res_def truthy_def
          split: prod.splits)
next
  case (Inr r)
  obtain ms rt err where r: "r = (ms, rt, err)" by (cases r)
  show ?thesis
    by (auto simp: PingMonitor_check_device_def Inr r try_except_def bind_res_def
          split: prod.splits)
qed

lemma PingMonitor_total:
  assumes "ping_ordinary out"
  shows "\<exists>sample self'. PingMonitor_check_device self now out = Inr (sample, self')
          \<and> (ping_failed out \<longrightarrow> truthy (last_error sample))"
proof -
  from PingMonitor_finish[OF ordinary_ping_try[OF assms], of self now]
  obtain sample self' where
    r: "PingMonitor_check_device self now out = Inr (sample, self')"
    and c: "case ping_try (config self) out of
                Inl e \<Rightarrow> truthy (last_error sample)
              | Inr (ms, rt, err) \<Rightarrow> last_error sample = err \<and> metrics sample = ms" by blast
  have "truthy (last_error sample)" if "ping_failed out"
    using ping_try_failed[OF assms that, of "config self"] c
    by (auto simp: truthy_def)
  with r show ?thesis by blast
qed


section \<open>The HTTP probe returns\<close>

lemma ordinary_json_float [simp]: "ordinary_res (json_float x)"
  by (cases x) (simp_all add: json_float_def)

lemma ordinary_json_contains [simp]: "ordinary_res (json_contains k data)"
  by (cases data) (simp_all add: json_contains_def)

lemma ordinary_json_getitem [simp]: "ordinary_res (json_getitem data k)"
  by (cases data) (simp_all add: json_getitem_def split: option.splits)

lemma ordinary_mapping_loop [simp]: "ordinary_res (mapping_loop data fm ms)"
proof (induction fm arbitrary: ms)
  case Nil
  show ?case by simp
next
  case (Cons a fm)
  obtain api_field metric_name where a: "a = (api_field, metric_name)" by (cases a)
  have eq: "mapping_loop data (a # fm) ms =
      bind_res (json_contains api_field data) (\<lambda>present.
        if present then
          bind_res (try_except
                    (bind_res (json_getitem data api_field) (\<lambda>v.
                     bind_res (json_float v) (\<lambda>x. Inr (dict_set ms metric_name x))))
                    [ValueError, TypeError] (\<lambda>e. Inr ms)) (\<lambda>ms'. mapping_loop data fm ms')
        else mapping_loop data fm ms)"
    by (auto simp: a bind_res_def split: sum.splits)
  show ?case
    unfolding eq
    by (intro ordinary_bind ordinary_json_contains)
       (auto intro!: ordinary_bind ordinary_try_except Cons.IH)
qed

lemma ordinary_nested_field [simp]: "ordinary_res (nested_field data outer inner metric ms)"
  unfolding nested_field_def
  by (intro ordinary_bind) (auto split: json.splits option.splits intro!: ordinary_bind)

lemma ordinary_plain_field [simp]: "ordinary_res (plain_field data k metric ms)"
  unfolding plain_field_def
  by (intro ordinary_bind) (auto intro!: ordinary_bind)

lemma ordinary_parse_http_response [simp]: "ordinary_res (parse_http_response cfg data)"
  unfolding parse_http_response_def
  by (intro ordinary_bind) (auto intro!: ordinary_bind)

lemma ordinary_text_value [simp]: "ordinary_res (text_value line)"
  by (simp add: text_value_def split: list.splits)

lemma ordinary_text_loop [simp]: "ordinary_res (text_loop ls ms)"
proof (induction ls arbitrary: ms)
  case Nil
  show ?case by simp
next
  case (Cons raw ls)
  define line where "line = lower (strip raw)"
  have eq: "text_loop (raw # ls) ms =
      bind_res
           (if contains ''cpu:'' line \<or> contains ''cpu usage:'' line then
              try_except (bind_res (text_value line) (\<lambda>v. Inr (dict_set ms ''cpu_usage'' v)))
                [ValueError, IndexError] (\<lambda>e. Inr ms)
            else if contains ''memory:'' line \<or> contains ''memory usage:'' line then
              try_except (bind_res (text_value line) (\<lambda>v. Inr (dict_set ms ''memory_usage'' v)))
                [ValueError, IndexError] (\<lambda>e. Inr ms)
            else Inr ms)
        (\<lambda>ms'. text_loop ls ms')"
    by (simp add: line_def bind_res_def Let_def)
  have t: "ordinary_res (try_except (bind_res (text_value l) (\<lambda>v. Inr (dict_set ms k v)))
                [ValueError, IndexError] (\<lambda>e. Inr ms))" for l k
    by (intro ordinary_try_except ordinary_bind) simp_all
  show ?case
    unfolding eq
    by (intro ordinary_bind Cons.IH) (simp add: t)
qed

lemma ordinary_parse_text_response [simp]: "ordinary_res (parse_text_response text)"
  by (simp add: parse_text_response_def)

lemma ordinary_basic_auth [simp]: "ordinary_res (basic_auth cfg)"
  by (simp add: basic_auth_def split: option.splits)

lemma ordinary_http_try:
  "http_ordinary (server (http_url cfg)) \<Longrightarrow> ordinary_res (http_try cfg server)"
  unfolding http_try_def
  by (intro ordinary_bind ordinary_basic_auth, cases "server (http_url cfg)")
     (auto intro!: ordinary_bind ordinary_try_except)

lemma http_try_failed:
  assumes "http_failed (server (http_url cfg))"
  shows "(\<exists>e. http_try cfg server = Inl e)
       \<or> (\<exists>rt msg. http_try cfg server = Inr ([], rt, Some msg) \<and> msg \<noteq> [])"
proof (cases "basic_auth cfg")
  case (Inl e)
  then show ?thesis by (simp add: http_try_def bind_res_def)
next
  case (Inr a)
  show ?thesis
  proof (cases "server (http_url cfg)")
    case (Http_raises e)
    with Inr show ?thesis by (simp add: http_try_def bind_res_def)
  next
    case (Http_response st rsn el js tx)
    show ?thesis
    proof (cases "st = 200")
      case False
      with Inr Http_response show ?thesis by (simp add: http_try_def bind_res_def)
    next
      case True
      with assms Http_response have "body_read_fails js tx" by simp
      then obtain e where js: "js = Inl e"
        and c: "\<not> isinstance e JSONDecodeError \<or> isl tx"
        by (cases js) (auto simp: body_read_fails_def)
      have "\<exists>e'. try_except (bind_res js (\<lambda>data. parse_http_response cfg data))
                  [JSONDecodeError]
                  (\<lambda>e. bind_res tx (\<lambda>text_data. parse_text_response text_data)) = Inl e'"
        using c by (cases tx) (auto simp: js try_except_def bind_res_def)
      then show ?thesis
        using Inr Http_response True by (auto simp: http_try_def bind_res_def)
    qed
  qed
qed

lemma HTTPMonitor_finish:
  assumes "ordinary_res (http_try (config self) server)"
  shows "\<exists>sample self'. HTTPMonitor_check_device self now server = Inr (sample, self')
          \<and> (case http_try (config self) server of
                Inl e \<Rightarrow> truthy (last_error sample) \<and> metrics sample = []
              | Inr (ms, rt, err) \<Rightarrow> last_error sample = err \<and> metrics sample = ms)"
proof (cases "http_try (config self) server")
  case (Inl e)
  with assms have "isinstance e Exception" by simp
  then show ?thesis
    by (cases "isinstance e TimeoutError")
       (auto simp: HTTPMonitor_check_device_def Inl try_except_def bind_res_def truthy_def
          split: prod.splits)
next
  case (Inr r)
  obtain ms rt err where r: "r = (ms, rt, err)" by (cases r)
  show ?thesis
    by (auto simp: HTTPMonitor_check_device_def Inr r try_except_def bind_res_def
          split: prod.splits)
qed

lemma HTTPMonitor_total:
  assumes "http_ordinary (server (http_url (config self)))"
  shows "\<exists>sample self'. HTTPMonitor_check_device self now server = Inr (sample, self')
          \<and> (http_failed (server (http_url (config self)))
               \<longrightarrow> truthy (last_error sample) \<and> metrics sample = [])"
proof -
  have "ordinary_res (http_try (config self) server)"
    using assms by (rule ordinary_http_try)
  from HTTPMonitor_finish[OF this, of now]
  obtain sample self' where
    r: "HTTPMonitor_check_device self now server = Inr (sample, self')"
    and c: "case http_try (config self) server of
                Inl e \<Rightarrow> truthy (last_error sample) \<and> metrics sample = []
              | Inr (ms, rt, err) \<Rightarrow> last_error sample = err \<and> metrics sample = ms" by blast
  have "truthy (last_error sample) \<and> metrics sample = []"
    if "http_failed (server (http_url (config self)))"
    using http_try_failed[where server = server and cfg = "config self"] that c
    by (auto simp: truthy_def)
  with r show ?thesis by blast
qed


section \<open>The SNMP probe returns\<close>

lemma snmp_get_returns:
  assumes "snmp_ordinary (agent (dict_get OIDS name []))"
  shows "\<exists>r. snmp_get agent name = Inr r"
  unfolding snmp_get_def
  by (rule try_except_Exception_returns)
     (use assms in \<open>auto split: snmp_reply.splits list.splits\<close>)

lemma ordinary_snmp_get:
  "\<forall>oid. snmp_ordinary (agent oid) \<Longrightarrow> ordinary_res (snmp_get agent name)"
  using snmp_get_returns[of agent name] by auto

lemma ordinary_uptime_step:
  "\<forall>oid. snmp_ordinary (agent oid) \<Longrightarrow> ordinary_res (uptime_step agent ms)"
  unfolding uptime_step_def
  by (intro ordinary_bind ordinary_snmp_get) (auto split: option.splits intro!: ordinary_bind)

lemma ordinary_cpu_step:
  "\<forall>oid. snmp_ordinary (agent oid) \<Longrightarrow> ordinary_res (cpu_step agent ms)"
  unfolding cpu_step_def
  by (intro ordinary_bind ordinary_snmp_get)
     (auto split: option.splits intro!: ordinary_bind ordinary_snmp_get)

lemma ordinary_memory_step:
  "\<forall>oid. snmp_ordinary (agent oid) \<Longrightarrow> ordinary_res (memory_step agent ms)"
  unfolding memory_step_def
  by (intro ordinary_bind ordinary_snmp_get)
     (auto split: option.splits simp: Let_def intro!: ordinary_bind)

lemma get_system_metrics_returns:
  assumes "\<forall>oid. snmp_ordinary (agent oid)"
  shows "\<exists>m. get_system_metrics agent = Inr m"
  unfolding get_system_metrics_def
  by (rule try_except_Exception_returns)
     (auto intro!: ordinary_bind ordinary_try_except ordinary_uptime_step ordinary_cpu_step
        ordinary_memory_step assms)

lemma get_interface_metrics_returns:
  assumes "\<forall>oid. snmp_ordinary (agent oid)"
  shows "\<exists>m. get_interface_metrics agent = Inr m"
  unfolding get_interface_metrics_def
  by (rule try_except_Exception_returns)
     (auto intro!: ordinary_bind ordinary_snmp_get assms)

lemma snmp_try_returns:
  assumes "\<forall>oid. snmp_ordinary (agent oid)"
  shows "\<exists>ms. snmp_try cfg agent elapsed = Inr (ms, elapsed)"
proof -
  from get_system_metrics_returns[OF assms] obtain m where m: "get_system_metrics agent = Inr m" ..
  from get_interface_metrics_returns[OF assms] obtain i where i: "get_interface_metrics agent = Inr i" ..
  show ?thesis by (simp add: snmp_try_def m i bind_res_def Let_def)
qed

lemma snmp_get_failed:
  assumes "snmp_ordinary (agent (dict_get OIDS name []))" and "read_fails agent name"
  shows "snmp_get agent name = Inr None"
  using assms
  by (cases "agent (dict_get OIDS name [])")
     (auto simp: snmp_get_def read_fails_def try_except_def split: list.splits)

lemma float_str_cases: "(\<exists>x. float_str s = Inr x) \<or> (\<exists>m. float_str s = Inl (Exn ValueError m))"
  by (simp add: float_str_def split: option.splits)

lemma dict_set_member:
  "(a, b) \<in> set (dict_set d k v) \<Longrightarrow> a = k \<or> a \<in> fst ` set d"
  using keys_dict_set[of d k v] by (metis fst_conv image_eqI insertE)

lemma uptime_step_keys:
  assumes "uptime_step agent ms = Inr ms'"
  shows "fst ` set ms' \<subseteq> insert ''uptime'' (fst ` set ms)"
  using assms
  by (auto simp: uptime_step_def bind_res_def dest: dict_set_member
        split: sum.splits option.splits if_splits)

lemma cpu_step_keys:
  assumes "cpu_step agent ms = Inr ms'"
  shows "fst ` set ms' \<subseteq> insert ''cpu_usage'' (fst ` set ms)"
  using assms
  by (auto simp: cpu_step_def bind_res_def dest: dict_set_member
        split: sum.splits option.splits if_splits)

lemma memory_step_keys:
  assumes "memory_step agent ms = Inr ms'"
  shows "fst ` set ms' \<subseteq> insert ''memory_usage'' (fst ` set ms)"
  using assms
  by (auto simp: memory_step_def bind_res_def Let_def dest: dict_set_member
        split: sum.splits option.splits if_splits)

lemma uptime_step_failed:
  assumes "\<forall>oid. snmp_ordinary (agent oid)" and "read_fails agent ''system_uptime''"
  shows "uptime_step agent ms = Inr ms"
  using snmp_get_failed[of agent "''system_uptime''"] assms
  by (simp add: uptime_step_def bind_res_def)

lemma cpu_step_failed:
  assumes "\<forall>oid. snmp_ordinary (agent oid)"
    and "read_fails agent ''cisco_cpu_5min''" and "read_fails agent ''hr_cpu_load''"
  shows "cpu_step agent ms = Inr ms"
  using snmp_get_failed[of agent "''cisco_cpu_5min''"] snmp_get_failed[of agent "''hr_cpu_load''"] assms
  by (simp add: cpu_step_def bind_res_def truthy_def)

lemma memory_step_failed:
  assumes "\<forall>oid. snmp_ordinary (agent oid)"
    and "read_fails agent ''cisco_memory_used'' \<or> read_fails agent ''cisco_memory_free''"
  shows "memory_step agent ms = Inr ms"
proof -
  from assms(1) obtain u f where u: "snmp_get agent ''cisco_memory_used'' = Inr u"
    and f: "snmp_get agent ''cisco_memory_free'' = Inr f"
    using snmp_get_returns[of agent] by blast
  from assms have "u = None \<or> f = None"
    using snmp_get_failed[of agent "''cisco_memory_used''"]
      snmp_get_failed[of agent "''cisco_memory_free''"] u f by auto
  then show ?thesis
    by (auto simp: memory_step_def bind_res_def u f split: option.splits)
qed

lemma get_system_metrics_keys:
  assumes "get_system_metrics agent = Inr m"
  shows "fst ` set m \<subseteq> {''uptime'', ''cpu_usage'', ''memory_usage''}"
proof -
  have k0: "fst ` set ([] :: rat pydict) \<subseteq> {''uptime'', ''cpu_usage'', ''memory_usage''}" by simp
  have k1: "fst ` set m1 \<subseteq> {''uptime'', ''cpu_usage'', ''memory_usage''}"
    if "uptime_step agent [] = Inr m1" for m1
    using uptime_step_keys[OF that] by auto
  have k2: "fst ` set m2 \<subseteq> {''uptime'', ''cpu_usage'', ''memory_usage''}"
    if "uptime_step agent [] = Inr m1" "cpu_step agent m1 = Inr m2" for m1 m2
    using k1[OF that(1)] cpu_step_keys[OF that(2)] by blast
  have k3: "fst ` set m3 \<subseteq> {''uptime'', ''cpu_usage'', ''memory_usage''}"
    if "uptime_step agent [] = Inr m1" "cpu_step agent m1 = Inr m2" "memory_step agent m2 = Inr m3"
    for m1 m2 m3
    using k2[OF that(1,2)] memory_step_keys[OF that(3)] by blast
  from assms show ?thesis
    unfolding get_system_metrics_def try_except_def bind_res_def
    by (auto split: sum.splits if_splits dest: k1 k2 k3)
qed

lemma get_system_metrics_unread:
  assumes ord: "\<forall>oid. snmp_ordinary (agent oid)"
    and r: "get_system_metrics agent = Inr m"
    and u: "metric_unread agent k"
  shows "k \<notin> fst ` set m"
proof (cases "uptime_step agent []")
  case (Inl e)
  with ordinary_uptime_step[OF ord, of "[]"] have "isinstance e Exception" by simp
  with r Inl show ?thesis
    by (simp add: get_system_metrics_def try_except_def bind_res_def)
next
  case m1: (Inr m1)
  have k1: "k \<notin> fst ` set m1"
  proof (cases "k = ''uptime''")
    case True
    with u have "read_fails agent ''system_uptime''" by (simp add: metric_unread_def)
    from uptime_step_failed[OF ord this, of "[]"] m1 show ?thesis by simp
  next
    case False
    with uptime_step_keys[OF m1] show ?thesis by auto
  qed
  show ?thesis
  proof (cases "cpu_step agent m1")
    case (Inl e)
    with ordinary_cpu_step[OF ord, of m1] have "isinstance e Exception" by simp
    with r m1 Inl have "m = m1"
      by (simp add: get_system_metrics_def try_except_def bind_res_def)
    with k1 show ?thesis by simp
  next
    case m2: (Inr m2)
    have k2: "k \<notin> fst ` set m2"
    proof (cases "k = ''cpu_usage''")
      case True
      with u have "read_fails agent ''cisco_cpu_5min''" "read_fails agent ''hr_cpu_load''"
        by (simp_all add: metric_unread_def)
      from cpu_step_failed[OF ord this, of m1] m2 k1 show ?thesis by simp
    next
      case False
      with cpu_step_keys[OF m2] k1 show ?thesis by auto
    qed
    show ?thesis
    proof (cases "memory_step agent m2")
      case (Inl e)
      with ordinary_memory_step[OF ord, of m2] have "isinstance e Exception" by simp
      with r m1 m2 Inl have "m = m2"
        by (simp add: get_system_metrics_def try_except_def bind_res_def)
      with k2 show ?thesis by simp
    next
      case m3: (Inr m3)
      with r m1 m2 have m: "m = m3"
        by (simp add: get_system_metrics_def try_except_def bind_res_def)
      show ?thesis
      proof (cases "k = ''memory_usage''")
        case True
        with u have "read_fails agent ''cisco_memory_used'' \<or> read_fails agent ''cisco_memory_free''"
          by (simp add: metric_unread_def)
        from memory_step_failed[OF ord this, of m2] m3 k2 m show ?thesis by simp
      next
        case False
        with memory_step_keys[OF m3] k2 m show ?thesis by auto
      qed
    qed
  qed
qed

lemma get_interface_metrics_unread:
  assumes ord: "\<forall>oid. snmp_ordinary (agent oid)"
    and r: "get_interface_metrics agent = Inr m"
    and u: "metric_unread agent k"
  shows "k \<notin> fst ` set m"
proof (cases "read_fails agent ''if_number''")
  case True
  from snmp_get_failed[OF _ True] ord have "snmp_get agent ''if_number'' = Inr None" by simp
  with r show ?thesis
    by (auto simp: get_interface_metrics_def try_except_def bind_res_def truthy_def)
next
  case False
  with u have "k \<noteq> ''interface_bandwidth''" "k \<noteq> ''error_packets''" "k \<noteq> ''traffic_per_port''"
    by (auto simp: metric_unread_def split: if_splits)
  moreover from r have "fst ` set m \<subseteq> {''interface_bandwidth'', ''error_packets'', ''traffic_per_port''}"
    by (auto simp: get_interface_metrics_def try_except_def bind_res_def
          split: sum.splits if_splits)
  ultimately show ?thesis by auto
qed

lemma snmp_try_unread:
  assumes ord: "\<forall>oid. snmp_ordinary (agent oid)"
    and r: "snmp_try cfg agent elapsed = Inr (ms, rt)"
    and u: "metric_unread agent k"
  shows "k \<notin> fst ` set ms"
proof -
  from get_system_metrics_returns[OF ord] obtain m where m: "get_system_metrics agent = Inr m" ..
  from get_interface_metrics_returns[OF ord] obtain i where i: "get_interface_metrics agent = Inr i" ..
  note a = get_system_metrics_unread[OF ord m u] get_interface_metrics_unread[OF ord i u]
  from u have b: "k \<notin> fst ` set get_router_metrics" "k \<notin> fst ` set get_switch_metrics"
    "k \<notin> fst ` set get_firewall_metrics"
    by (auto simp: metric_unread_def get_router_metrics_def get_switch_metrics_def
          get_firewall_metrics_def split: if_splits)
  have c: "k \<notin> fst ` set (dict_update d other)"
    if "k \<notin> fst ` set d" "k \<notin> fst ` set other" for d other :: "rat pydict"
    using that by (simp add: keys_dict_update)
  have e: "k \<notin> fst ` set (dict_update [] m)" by (rule c) (simp, rule a(1))
  from r have "ms = dict_update (dict_update (dict_update [] m) get_router_metrics) i
      \<or> ms = dict_update (dict_update (dict_update [] m) get_switch_metrics) i
      \<or> ms = dict_update (dict_update (dict_update [] m) get_firewall_metrics) i
      \<or> ms = dict_update (dict_update [] m) i"
    by (auto simp: snmp_try_def m i bind_res_def Let_def split: if_splits)
  with a b c e show ?thesis by metis
qed

lemma map_of_add_defaults_fold:
  "map_of (foldl (\<lambda>acc (k, v). if dict_contains acc k then acc else dict_set acc k v) ms ds) k
     = (case map_of ms k of Some v \<Rightarrow> Some v | None \<Rightarrow> map_of ds k)"
proof (induction ds arbitrary: ms)
  case Nil
  then show ?case by (simp split: option.splits)
next
  case (Cons d ds)
  obtain k' v' where d: "d = (k', v')" by (cases d)
  show ?case
  proof (cases "dict_contains ms k'")
    case True
    then obtain y where "map_of ms k' = Some y" by (auto simp: dict_contains_map_of)
    with True show ?thesis by (simp add: d Cons.IH split: option.splits)
  next
    case False
    then have "map_of ms k' = None" by (simp add: dict_contains_map_of)
    with False show ?thesis by (simp add: d Cons.IH map_of_dict_set split: option.splits)
  qed
qed

lemma map_of_add_default_metrics:
  assumes "k \<notin> fst ` set ms"
  shows "map_of (add_default_metrics cfg ms) k
           = map_of (dict_get device_defaults (cfg_type cfg) []) k"
proof -
  from assms have "map_of ms k = None" by (simp add: map_of_eq_None_iff)
  then show ?thesis by (simp add: add_default_metrics_def map_of_add_defaults_fold)
qed

lemma SNMPMonitor_available:
  assumes ord: "\<forall>oid. snmp_ordinary (agent oid)"
  shows "\<exists>sample self'. SNMPMonitor_check_device True self now pout agent elapsed = Inr (sample, self')
           \<and> last_error sample = None
           \<and> (\<forall>k. metric_unread agent k \<longrightarrow>
                  map_of (metrics sample) k
                    = map_of (dict_get device_defaults (cfg_type (config self)) []) k)"
proof -
  from snmp_try_returns[OF ord] obtain ms where
    ms: "snmp_try (config self) agent elapsed = Inr (ms, elapsed)" ..
  have "map_of (add_default_metrics (config self) ms) k
          = map_of (dict_get device_defaults (cfg_type (config self)) []) k"
    if "metric_unread agent k" for k
    by (rule map_of_add_default_metrics) (rule snmp_try_unread[OF ord ms that])
  then show ?thesis
    by (simp add: SNMPMonitor_check_device_def ms try_except_def bind_res_def Let_def
        split: prod.splits)
qed

lemma SNMPMonitor_fallback:
  assumes "ping_ordinary pout"
  shows "\<exists>sample self'. SNMPMonitor_check_device False self now pout agent elapsed = Inr (sample, self')
           \<and> (ping_failed pout \<longrightarrow> truthy (last_error sample))"
  using PingMonitor_total[OF assms, of "DeviceMonitor_init (config self)" now]
  by (auto simp: SNMPMonitor_check_device_def fallback_to_ping_def bind_res_def)

text \<open>
  C4 (as amended). For every device configuration and every ordinary outcome of the
  network operations, each probe's \<open>check_device\<close> returns a sample and raises nothing.
  The ping probe, the HTTP probe and the ping fallback of the SNMP probe (taken when SNMP
  is unavailable) record every failure in the sample's error field. With SNMP available,
  when at least one of the reads of a check answers, the reads that fail are swallowed:
  the sample's error field stays unset, and a metric whose reads failed has the value of
  the per-type default table (none when the table has none for it).
\<close>

theorem probes_return_samples:
  "(ping_ordinary pout \<longrightarrow>
      (\<exists>sample self'. PingMonitor_check_device self now pout = Inr (sample, self')
          \<and> (ping_failed pout \<longrightarrow> truthy (last_error sample))))
   \<and> (http_ordinary (server (http_url (config self))) \<longrightarrow>
      (\<exists>sample self'. HTTPMonitor_check_device self now server = Inr (sample, self')
          \<and> (http_failed (server (http_url (config self))) \<longrightarrow> truthy (last_error sample))))
   \<and> ((if available then \<forall>oid. snmp_ordinary (agent oid) else ping_ordinary pout) \<longrightarrow>
      (\<exists>sample self'. SNMPMonitor_check_device available self now pout agent elapsed
            = Inr (sample, self')
          \<and> (\<not> available \<and> ping_failed pout \<longrightarrow> truthy (last_error sample))
          \<and> (available \<and> list_ex (\<lambda>name. \<not> read_fails agent name) snmp_reads \<longrightarrow>
                last_error sample = None
                \<and> (\<forall>k. metric_unread agent k \<longrightarrow>
                      map_of (metrics sample) k
                        = map_of (dict_get device_defaults (cfg_type (config self)) []) k))))"
proof (intro conjI impI)
  assume "ping_ordinary pout"
  then show "\<exists>sample self'. PingMonitor_check_device self now pout = Inr (sample, self')
          \<and> (ping_failed pout \<longrightarrow> truthy (last_error sample))"
    by (rule PingMonitor_total)
next
  assume "http_ordinary (server (http_url (config self)))"
  then show "\<exists>sample self'. HTTPMonitor_check_device self now server = Inr (sample, self')
          \<and> (http_failed (server (http_url (config self))) \<longrightarrow> truthy (last_error sample))"
    using HTTPMonitor_total[of server self now] by blast
next
  assume a: "if available then \<forall>oid. snmp_ordinary (agent oid) else ping_ordinary pout"
  show "\<exists>sample self'. SNMPMonitor_check_device available self now pout agent elapsed
            = Inr (sample, self')
          \<and> (\<not> available \<and> ping_failed pout \<longrightarrow> truthy (last_error sample))
          \<and> (available \<and> list_ex (\<lambda>name. \<not> read_fails agent name) snmp_reads \<longrightarrow>
                last_error sample = None
                \<and> (\<forall>k. metric_unread agent k \<longrightarrow>
                      map_of (metrics sample) k
                        = map_of (dict_get device_defaults (cfg_type (config self)) []) k))"
  proof (cases available)
    case True
    with a have "\<forall>oid. snmp_ordinary (agent oid)" by simp
    from SNMPMonitor_available[OF this, of self now pout elapsed] obtain sample self' where
      "SNMPMonitor_check_device True self now pout agent elapsed = Inr (sample, self')"
      "last_error sample = None"
      "\<forall>k. metric_unread agent k \<longrightarrow>
          map_of (metrics sample) k = map_of (dict_get device_defaults (cfg_type (config self)) []) k"
      by blast
    with True show ?thesis by simp
  next
    case False
    with a have "ping_ordinary pout" by simp
    from SNMPMonitor_fallback[OF this, of self now agent elapsed] obtain sample self' where
      "SNMPMonitor_check_device False self now pout agent elapsed = Inr (sample, self')"
      "ping_failed pout \<longrightarrow> truthy (last_error sample)"
      by blast
    with False show ?thesis by simp
  qed
qed

theorem probes_return_samples_witness:
  "(\<exists>sample self'. PingMonitor_check_device (DeviceMonitor_init device_firewall_01) 0
        (Ping_exited 2 (Inr []) (Inr ''ping: unknown host'') 40) = Inr (sample, self')
      \<and> truthy (last_error sample))
   \<and> (\<exists>sample self'. HTTPMonitor_check_device (DeviceMonitor_init device_firewall_01) 0
        (\<lambda>url. Http_raises (Exn TimeoutError [])) = Inr (sample, self')
      \<and> truthy (last_error sample))
   \<and> (\<exists>sample self'. SNMPMonitor_check_device True (DeviceMonitor_init device_firewall_01) 0
        (Ping_exited 2 (Inr []) (Inr ''ping: unknown host'') 40)
        (\<lambda>oid. if oid = ''1.3.6.1.2.1.1.3.0''
               then Snmp_raises (Exn TimeoutError ''No SNMP response received before timeout'')
               else Snmp_result False False [''42'']) 1500 = Inr (sample, self')
      \<and> last_error sample = None
      \<and> map_of (metrics sample) ''uptime'' = Some (999 / 10))
   \<and> (\<exists>sample self'. SNMPMonitor_check_device False (DeviceMonitor_init device_firewall_01) 0
        (Ping_exited 2 (Inr []) (Inr ''ping: unknown host'') 40)
        (\<lambda>oid. Snmp_raises (Exn TimeoutError [])) 1500 = Inr (sample, self')
      \<and> truthy (last_error sample))"
proof -
  define pout where "pout = Ping_exited 2 (Inr []) (Inr ''ping: unknown host'') 40"
  define server where "server = (\<lambda>url :: string. Http_raises (Exn TimeoutError []))"
  define agent where "agent = (\<lambda>oid. if oid = ''1.3.6.1.2.1.1.3.0''
               then Snmp_raises (Exn TimeoutError ''No SNMP response received before timeout'')
               else Snmp_result False False [''42''])"
  define self where "self = DeviceMonitor_init device_firewall_01"
  have po: "ping_ordinary pout" and pf: "ping_failed pout" by (simp_all add: pout_def)
  have ho: "http_ordinary (server (http_url (config self)))"
    and hf: "http_failed (server (http_url (config self)))" by (simp_all add: server_def)
  have ord: "\<forall>oid. snmp_ordinary (agent oid)" by (simp add: agent_def)
  have ok: "list_ex (\<lambda>name. \<not> read_fails agent name) snmp_reads"
    by (simp add: snmp_reads_def read_fails_def agent_def OIDS_def dict_get_def)
  have un: "metric_unread agent ''uptime''"
    by (simp add: metric_unread_def read_fails_def agent_def OIDS_def dict_get_def)
  have df: "map_of (dict_get device_defaults (cfg_type (config self)) []) ''uptime'' = Some (999 / 10)"
    by (simp add: self_def DeviceMonitor_init_def device_firewall_01_def post_init_def
          device_defaults_def dict_get_def)
  note t = probes_return_samples[of pout self 0 server True agent 1500]
  note f = probes_return_samples[of pout self 0 server False "\<lambda>oid. Snmp_raises (Exn TimeoutError [])" 1500]
  from t po pf have 1: "\<exists>sample self'. PingMonitor_check_device self 0 pout = Inr (sample, self')
      \<and> truthy (last_error sample)" by blast
  from t ho hf have 2: "\<exists>sample self'. HTTPMonitor_check_device self 0 server = Inr (sample, self')
      \<and> truthy (last_error sample)" by blast
  from t ord ok obtain sample self' where
    s: "SNMPMonitor_check_device True self 0 pout agent 1500 = Inr (sample, self')"
      "last_error sample = None"
      "\<forall>k. metric_unread agent k \<longrightarrow>
          map_of (metrics sample) k = map_of (dict_get device_defaults (cfg_type (config self)) []) k"
    by auto
  from s(3) un df have "map_of (metrics sample) ''uptime'' = Some (999 / 10)" by simp
  with s have 3: "\<exists>sample self'. SNMPMonitor_check_device True self 0 pout agent 1500 = Inr (sample, self')
      \<and> last_error sample = None \<and> map_of (metrics sample) ''uptime'' = Some (999 / 10)" by blast
  from f po pf have 4: "\<exists>sample self'. SNMPMonitor_check_device False self 0 pout
        (\<lambda>oid. Snmp_raises (Exn TimeoutError [])) 1500 = Inr (sample, self')
      \<and> truthy (last_error sample)" by auto
  from 1 2 3 4 show ?thesis unfolding pout_def server_def agent_def self_def by blast
qed

text \<open>
  C4 as first stated fails for the SNMP probe: when the read of the system uptime times
  out (and the other reads answer), the sample carries no error and is \<open>online\<close>.
\<close>

theorem snmp_failed_read_sets_no_error:
  "case SNMPMonitor_check_device True (DeviceMonitor_init device_router_01) 0
          (Ping_raises (Exn TimeoutError []))
          (\<lambda>oid. if oid = ''1.3.6.1.2.1.1.3.0''
                 then Snmp_raises (Exn TimeoutError ''No SNMP response received before timeout'')
                 else Snmp_result False False [''42'']) 1500 of
     Inl e \<Rightarrow> False
   | Inr (sample, self') \<Rightarrow> last_error sample = None \<and> status sample = ''online''"
  by code_simp

text \<open>
  The handler of \<open>SNMPMonitor.check_device\<close> is never entered by a failed read, so a
  device that answers no read at all also yields a sample without error.
\<close>

lemma snmp_total_failure_sets_no_error:
  "case SNMPMonitor_check_device True (DeviceMonitor_init device_router_01) 0
          (Ping_raises (Exn TimeoutError []))
          (\<lambda>oid. Snmp_raises (Exn TimeoutError ''No SNMP response received before timeout'')) 1500 of
     Inl e \<Rightarrow> False
   | Inr (sample, self') \<Rightarrow> last_error sample = None \<and> status sample = ''online''"
  by code_simp

text \<open>
  C9. When the request of the HTTP probe raises (a transport error, a timeout), when
  reading the body of a response raises, or when the response has a status outside
  200..299, the probe returns a sample whose error is set and whose metric map is empty.
\<close>

theorem http_failure_gives_empty_error_sample:
  assumes "case server (http_url (config self)) of
             Http_raises e \<Rightarrow> isinstance e Exception
           | Http_response st rsn el js txt \<Rightarrow>
               st < 200 \<or> 299 < st
               \<or> (ordinary_res js \<and> ordinary_res txt \<and> body_read_fails js txt)"
  shows "\<exists>sample self'. HTTPMonitor_check_device self now server = Inr (sample, self')
           \<and> truthy (last_error sample) \<and> metrics sample = []"
proof -
  let ?out = "server (http_url (config self))"
  have f: "http_failed ?out"
    using assms by (cases "server (http_url (config self))") auto
  have o: "ordinary_res (http_try (config self) server)"
  proof (cases "server (http_url (config self))")
    case (Http_raises e)
    with assms show ?thesis
      by (auto simp: http_try_def intro!: ordinary_bind)
  next
    case (Http_response st rsn el js tx)
    show ?thesis
    proof (cases "st = 200")
      case True
      with assms Http_response have "http_ordinary ?out" by simp
      then show ?thesis by (rule ordinary_http_try)
    next
      case False
      with Http_response show ?thesis
        by (auto simp: http_try_def intro!: ordinary_bind)
    qed
  qed
  from HTTPMonitor_finish[OF o, of now] http_try_failed[where server = server and cfg = "config self"] f
  show ?thesis
    by (auto simp: truthy_def)
qed

theorem http_failure_gives_empty_error_sample_witness:
  "\<exists>sample self'. HTTPMonitor_check_device (DeviceMonitor_init device_firewall_01) 0
        (\<lambda>url. if url = ''http://192.168.1.254/api/status''
               then Http_response 404 ''Not Found'' 12 (Inr JNull) (Inr [])
               else Http_raises (Exn Exception ''no route'')) = Inr (sample, self')
      \<and> truthy (last_error sample) \<and> metrics sample = []"
  by (rule http_failure_gives_empty_error_sample)
     (simp add: DeviceMonitor_init_def device_firewall_01_def post_init_def http_url_def)

section \<open>Properties of the API client\<close>

lemma requests_sent_send [simp]:
  "is_request req \<Longrightarrow> requests_sent (snd (send env s req)) = Suc (requests_sent s)"
  by (simp add: send_def requests_sent_def)

lemma requests_sent_sleep [simp]: "requests_sent (sleep s d) = requests_sent s"
  by (simp add: sleep_def requests_sent_def)

lemma is_request_simps [simp]:
  "is_request (login_request c)" "is_request (get_request s)" "is_request (post_request s d)"
  "is_request (put_request s i d)"
  by (simp_all add: login_request_def get_request_def post_request_def put_request_def)

lemma authenticate_cases:
  assumes "authenticate env s = Inr (ok, s2)"
  shows "trace s2 = trace s @ [login_request (api_config s)] \<and> api_config s2 = api_config s"
  using assms
  by (auto simp: authenticate_def send_def try_except_def bind_res_def Let_def
      split: api_response.splits sum.splits if_splits)

lemma ordinary_json_get_method [simp]: "ordinary_res (json_get_method d k v)"
  by (cases d) (simp_all add: json_get_method_def)

lemma ordinary_json_minus [simp]: "ordinary_res (json_minus x n)"
  by (cases x) (simp_all add: json_minus_def)

lemma authenticate_returns:
  assumes "api_ordinary (respond env (requests_sent s))"
  shows "\<exists>ok s2. authenticate env s = Inr (ok, s2)"
proof -
  have "\<exists>x. authenticate env s = Inr x"
    unfolding authenticate_def send_def prod.case
    by (rule try_except_Exception_returns)
       (use assms in \<open>auto split: api_response.splits simp: Let_def
          intro!: ordinary_bind ordinary_try_except\<close>)
  then show ?thesis by auto
qed

lemma send_simps [simp]:
  "fst (send env s req) = respond env (requests_sent s)"
  "snd (send env s req) = s\<lparr>trace := trace s @ [req]\<rparr>"
  by (simp_all add: send_def)

lemma request_unchanged [simp]:
  "post_request (s\<lparr>trace := t\<rparr>) d = post_request s d"
  "put_request (s\<lparr>trace := t\<rparr>) i d = put_request s i d"
  "post_request (sleep s x) d = post_request s d"
  "put_request (sleep s x) i d = put_request s i d"
  by (simp_all add: post_request_def put_request_def get_headers_def sleep_def)

lemma requests_sent_append [simp]:
  "is_request req \<Longrightarrow> requests_sent (s\<lparr>trace := trace s @ [req]\<rparr>) = Suc (requests_sent s)"
  by (simp add: requests_sent_def)

lemma create_loop_all_raise:
  assumes "\<forall>i<n. \<exists>e. respond env (requests_sent s + i) = Api_raises e \<and> isinstance e Exception"
  shows "create_loop env device_data n s
         = Inr (False, s\<lparr>trace := trace s @ attempts_spaced (post_request s device_data)
                                             (retry_delay (api_config s)) n\<rparr>)"
  using assms
proof (induction n arbitrary: s)
  case 0
  show ?case by simp
next
  case (Suc n)
  from Suc.prems obtain e where e: "respond env (requests_sent s) = Api_raises e"
    and o: "isinstance e Exception" by force
  define s1 where "s1 = s\<lparr>trace := trace s @ [post_request s device_data]\<rparr>"
  define s2 where "s2 = (if n > 0 then sleep s1 (retry_delay (api_config s1)) else s1)"
  have r: "requests_sent s2 = Suc (requests_sent s)"
    by (simp add: s2_def s1_def)
  have "\<forall>i<n. \<exists>e. respond env (requests_sent s2 + i) = Api_raises e \<and> isinstance e Exception"
    using Suc.prems unfolding r by (metis Suc_less_eq add_Suc_shift)
  from Suc.IH[OF this] have
    "create_loop env device_data n s2
         = Inr (False, s2\<lparr>trace := trace s2 @ attempts_spaced (post_request s2 device_data)
                                             (retry_delay (api_config s2)) n\<rparr>)" .
  moreover have "create_loop env device_data (Suc n) s = create_loop env device_data n s2"
    by (simp add: send_def e o s2_def s1_def)
  ultimately show ?case
    by (cases n) (simp_all add: s2_def s1_def sleep_def)
qed

lemma update_loop_all_raise:
  assumes "\<forall>i<n. \<exists>e. respond env (requests_sent s + i) = Api_raises e \<and> isinstance e Exception"
  shows "update_loop env dev_id update_data n s
         = Inr (False, s\<lparr>trace := trace s @ attempts_spaced (put_request s dev_id update_data)
                                             (retry_delay (api_config s)) n\<rparr>)"
  using assms
proof (induction n arbitrary: s)
  case 0
  show ?case by simp
next
  case (Suc n)
  from Suc.prems obtain e where e: "respond env (requests_sent s) = Api_raises e"
    and o: "isinstance e Exception" by force
  define s1 where "s1 = s\<lparr>trace := trace s @ [put_request s dev_id update_data]\<rparr>"
  define s2 where "s2 = (if n > 0 then sleep s1 (retry_delay (api_config s1)) else s1)"
  have r: "requests_sent s2 = Suc (requests_sent s)"
    by (simp add: s2_def s1_def)
  have "\<forall>i<n. \<exists>e. respond env (requests_sent s2 + i) = Api_raises e \<and> isinstance e Exception"
    using Suc.prems unfolding r by (metis Suc_less_eq add_Suc_shift)
  from Suc.IH[OF this] have
    "update_loop env dev_id update_data n s2
         = Inr (False, s2\<lparr>trace := trace s2 @ attempts_spaced (put_request s2 dev_id update_data)
                                             (retry_delay (api_config s2)) n\<rparr>)" .
  moreover have "update_loop env dev_id update_data (Suc n) s = update_loop env dev_id update_data n s2"
    by (simp add: send_def e o s2_def s1_def)
  ultimately show ?case
    by (cases n) (simp_all add: s2_def s1_def sleep_def)
qed

lemma create_loop_error_response:
  assumes "respond env (requests_sent s) = Api_response st (Inr (JObj kvs))" and "st \<noteq> 200"
  shows "create_loop env device_data (Suc n) s
         = Inr (False, s\<lparr>trace := trace s @ [post_request s device_data]\<rparr>)"
  using assms by (simp add: send_def bind_res_def json_get_method_def)

lemma update_loop_error_response:
  assumes "respond env (requests_sent s) = Api_response st (Inr (JObj kvs))"
    and "st \<noteq> 200" and "st \<noteq> 401"
  shows "update_loop env dev_id update_data (Suc n) s
         = Inr (False, s\<lparr>trace := trace s @ [put_request s dev_id update_data]\<rparr>)"
  using assms by (simp add: send_def bind_res_def json_get_method_def)

lemma authenticate_raises:
  assumes "authenticate env s = Inl e"
  shows "\<not> isinstance e Exception"
  using assms
  by (auto simp: authenticate_def send_def try_except_def split: sum.splits if_splits)

lemma update_loop_extends:
  assumes "update_loop env dev_id update_data n s = Inr (ok, s')"
  shows "\<exists>ext. trace s' = trace s @ ext
           \<and> (0 < n \<longrightarrow> (\<exists>ext'. ext = put_request s dev_id update_data # ext'))"
  using assms
proof (induction n arbitrary: s)
  case 0
  then show ?case by simp
next
  case (Suc n)
  define s1 where "s1 = s\<lparr>trace := trace s @ [put_request s dev_id update_data]\<rparr>"
  have t1: "trace s1 = trace s @ [put_request s dev_id update_data]" by (simp add: s1_def)
  consider (ret) "s' = s1"
    | (cont) s2 where "update_loop env dev_id update_data n s2 = Inr (ok, s')"
        "\<exists>e. trace s2 = trace s1 @ e"
  proof (cases "respond env (requests_sent s)")
    case (Api_raises e)
    with Suc.prems have
      "update_loop env dev_id update_data n
          (if n > 0 then sleep s1 (retry_delay (api_config s1)) else s1) = Inr (ok, s')"
      by (simp add: send_def s1_def split: if_splits)
    then show ?thesis
      by (rule cont) (simp add: sleep_def)
  next
    case (Api_response st body)
    show ?thesis
    proof (cases "st = 200")
      case True
      with Suc.prems Api_response have "s' = s1" by (simp add: send_def s1_def)
      then show ?thesis by (rule ret)
    next
      case n200: False
      show ?thesis
      proof (cases "st = 401")
        case True
        show ?thesis
        proof (cases "authenticate env s1")
          case (Inl e)
          with Suc.prems Api_response True authenticate_raises[OF Inl] show ?thesis
            by (simp add: send_def s1_def bind_res_def split: if_splits)
        next
          case (Inr p)
          obtain ok2 s2 where p: "p = (ok2, s2)" by (cases p)
          from authenticate_cases[OF Inr[unfolded p]] have "\<exists>e. trace s2 = trace s1 @ e" by simp
          moreover from Suc.prems Api_response True Inr p
          have "update_loop env dev_id update_data n s2 = Inr (ok, s')"
            by (simp add: send_def s1_def bind_res_def)
          ultimately show ?thesis using cont by blast
        qed
      next
        case False
        define r where "r = bind_res body (\<lambda>error_data.
                       bind_res (json_get_method error_data ''error'' (JStr ''Unknown error''))
                         (\<lambda>msg. Inr (Return False)))"
        show ?thesis
        proof (cases r)
          case (Inl e)
          with Suc.prems Api_response n200 False have
            "update_loop env dev_id update_data n
              (if n > 0 then sleep s1 (retry_delay (api_config s1)) else s1) = Inr (ok, s')"
            by (simp add: send_def s1_def r_def split: if_splits)
          then show ?thesis
            by (rule cont) (simp add: sleep_def)
        next
          case (Inr a)
          then have "a = Return False"
            by (auto simp: r_def bind_res_def split: sum.splits)
          with Suc.prems Api_response n200 False Inr have "s' = s1"
            by (simp add: send_def s1_def r_def)
          then show ?thesis by (rule ret)
        qed
      qed
    qed
  qed
  then show ?case
  proof cases
    case ret
    then show ?thesis by (simp add: t1)
  next
    case (cont s2)
    from Suc.IH[OF cont(1)] obtain ext where "trace s' = trace s2 @ ext" by blast
    with cont(2) t1 show ?thesis by auto
  qed
qed

text \<open>
  \<open>get_devices\<close> has no retry loop: whatever the backend answers, it sends its request
  once and returns (the empty list on any failure).
\<close>

lemma get_devices_single_request:
  assumes "ensure_authenticated env self = Inr s"
    and "api_ordinary (respond env (requests_sent s))"
  shows "\<exists>devices. get_devices env self
           = Inr (devices, s\<lparr>trace := trace s @ [get_request s]\<rparr>)"
proof (cases "respond env (requests_sent s)")
  case (Api_raises e)
  with assms show ?thesis
    by (simp add: get_devices_def bind_res_def send_def try_except_def)
next
  case (Api_response st body)
  with assms show ?thesis
    by (cases body) (auto simp: get_devices_def bind_res_def send_def try_except_def)
qed

text \<open>
  C5 (as amended). \<open>create_device\<close> and \<open>update_device\<close> retry an attempt whose request
  raises: when every attempt raises, the request is sent exactly \<open>retry_attempts\<close> times
  with a sleep of \<open>retry_delay\<close> between consecutive attempts, and the call reports
  failure. A response with a status other than 200 (for an update, also other than 401)
  and a JSON object as body ends the call with failure after that one attempt.
\<close>

theorem retries_follow_exceptions_only:
  assumes "ensure_authenticated env self = Inr s"
  shows "((\<forall>i < nat (retry_attempts (api_config s)).
             \<exists>e. respond env (requests_sent s + i) = Api_raises e \<and> isinstance e Exception) \<longrightarrow>
            create_device env self device_data
              = Inr (False, s\<lparr>trace := trace s @ attempts_spaced (post_request s device_data)
                     (retry_delay (api_config s)) (nat (retry_attempts (api_config s)))\<rparr>)
          \<and> update_device env self dev_id update_data
              = Inr (False, s\<lparr>trace := trace s @ attempts_spaced (put_request s dev_id update_data)
                     (retry_delay (api_config s)) (nat (retry_attempts (api_config s)))\<rparr>))
       \<and> (\<forall>st kvs. 0 < retry_attempts (api_config s)
              \<and> respond env (requests_sent s) = Api_response st (Inr (JObj kvs)) \<and> st \<noteq> 200 \<longrightarrow>
            create_device env self device_data
              = Inr (False, s\<lparr>trace := trace s @ [post_request s device_data]\<rparr>)
          \<and> (st \<noteq> 401 \<longrightarrow>
               update_device env self dev_id update_data
                 = Inr (False, s\<lparr>trace := trace s @ [put_request s dev_id update_data]\<rparr>)))"
proof -
  have c: "create_device env self device_data
           = create_loop env device_data (nat (retry_attempts (api_config s))) s"
    and u: "update_device env self dev_id update_data
           = update_loop env dev_id update_data (nat (retry_attempts (api_config s))) s"
    by (simp_all add: create_device_def update_device_def assms bind_res_def)
  have 1: "create_device env self device_data
              = Inr (False, s\<lparr>trace := trace s @ attempts_spaced (post_request s device_data)
                     (retry_delay (api_config s)) (nat (retry_attempts (api_config s)))\<rparr>)
          \<and> update_device env self dev_id update_data
              = Inr (False, s\<lparr>trace := trace s @ attempts_spaced (put_request s dev_id update_data)
                     (retry_delay (api_config s)) (nat (retry_attempts (api_config s)))\<rparr>)"
    if "\<forall>i < nat (retry_attempts (api_config s)).
             \<exists>e. respond env (requests_sent s + i) = Api_raises e \<and> isinstance e Exception"
    unfolding c u using create_loop_all_raise[OF that] update_loop_all_raise[OF that] by blast
  have 2: "create_device env self device_data
              = Inr (False, s\<lparr>trace := trace s @ [post_request s device_data]\<rparr>)
          \<and> (st \<noteq> 401 \<longrightarrow>
               update_device env self dev_id update_data
                 = Inr (False, s\<lparr>trace := trace s @ [put_request s dev_id update_data]\<rparr>))"
    if "0 < retry_attempts (api_config s)"
      "respond env (requests_sent s) = Api_response st (Inr (JObj kvs))" "st \<noteq> 200" for st kvs
  proof -
    from that(1) obtain n where n: "nat (retry_attempts (api_config s)) = Suc n"
      by (cases "nat (retry_attempts (api_config s))") auto
    show ?thesis
      unfolding c u n
      using create_loop_error_response[OF that(2,3)] update_loop_error_response[OF that(2,3)]
      by blast
  qed
  from 1 2 show ?thesis by blast
qed


theorem retries_follow_exceptions_only_witness:
  "create_device \<lparr>respond = (\<lambda>n. Api_raises (Exn Exception ''Cannot connect to host'')),
                   clock = (\<lambda>n. 0)\<rparr>
     (APIClient_init default_api_config) (JObj [(''name'', JStr ''Main Router'')])
   = Inr (False, \<lparr>api_config = default_api_config, token = JNull, token_expires = None,
           trace = [login_request default_api_config,
                    Http_req ''POST'' ''http://localhost:5000/api/devices''
                      (Some (JObj [(''name'', JStr ''Main Router'')])) None,
                    Sleep 5,
                    Http_req ''POST'' ''http://localhost:5000/api/devices''
                      (Some (JObj [(''name'', JStr ''Main Router'')])) None,
                    Sleep 5,
                    Http_req ''POST'' ''http://localhost:5000/api/devices''
                      (Some (JObj [(''name'', JStr ''Main Router'')])) None]\<rparr>)"
proof -
  let ?env = "\<lparr>respond = (\<lambda>n. Api_raises (Exn Exception ''Cannot connect to host'')),
                   clock = (\<lambda>n. 0)\<rparr>"
  let ?s = "\<lparr>api_config = default_api_config, token = JNull, token_expires = None,
             trace = [login_request default_api_config]\<rparr>"
  have o: "isinstance (Exn Exception m) Exception" for m
    by (simp add: isinstance_def issubclass_def)
  have a: "ensure_authenticated ?env (APIClient_init default_api_config) = Inr ?s"
    by (simp add: ensure_authenticated_def APIClient_init_def json_truthy_def authenticate_def
        send_def try_except_def bind_res_def o)
  have n: "nat (retry_attempts (api_config ?s)) = Suc (Suc (Suc 0))"
    by (simp add: default_api_config_def)
  from retries_follow_exceptions_only[OF a, of "JObj [(''name'', JStr ''Main Router'')]"]
  show ?thesis
    unfolding n
    by (simp add: o post_request_def get_headers_def json_truthy_def default_api_config_def)
qed

text \<open>
  C5 as first stated fails: with three attempts configured, a create call answered by
  status 500 (and a JSON error body) reports failure after one request and no sleep.
\<close>

theorem create_not_retried_after_error_response:
  "case create_device
          \<lparr>respond = (\<lambda>n. if n = 0
                          then Api_response 200 (Inr (JObj [(''token'', JStr ''abc''),
                                                            (''expires_in'', JNum 3600)]))
                          else Api_response 500 (Inr (JObj [(''error'', JStr ''Internal error'')]))),
            clock = (\<lambda>n. 0)\<rparr>
          (APIClient_init default_api_config) (JObj [(''name'', JStr ''Main Router'')]) of
     Inl e \<Rightarrow> False
   | Inr (ok, c) \<Rightarrow>
       \<not> ok \<and> retry_attempts (api_config c) = 3
       \<and> trace c = [login_request default_api_config,
                     Http_req ''POST'' ''http://localhost:5000/api/devices''
                       (Some (JObj [(''name'', JStr ''Main Router'')])) (Some (JStr ''abc''))]"
  by code_simp

text \<open>
  C6 (as amended). Let an attempt of \<open>update_device\<close>'s loop that is not the last one (two
  or more attempts are left, this one included) be answered with status 401, and let the
  login that follows raise nothing outside \<open>Exception\<close>. Then the client sends exactly
  one login request and after it the same update again (same URL and payload, with the
  token the login left): every trace the loop returns continues with these two requests.
  If that second update is answered with status 200, the call returns success at once.
  The last line ties the loop to \<open>update_device\<close> when the attempt is the first.
\<close>

theorem reauthenticates_once_then_retries:
  assumes "respond env (requests_sent s) = Api_response 401 b1"
    and "api_ordinary (respond env (Suc (requests_sent s)))"
  shows "\<exists>ok s2.
           authenticate env (s\<lparr>trace := trace s @ [put_request s dev_id update_data]\<rparr>) = Inr (ok, s2)
         \<and> trace s2 = trace s @ [put_request s dev_id update_data, login_request (api_config s)]
         \<and> api_config s2 = api_config s
         \<and> (\<forall>ok' s'. update_loop env dev_id update_data (Suc (Suc left)) s = Inr (ok', s') \<longrightarrow>
               (\<exists>ext. trace s' = trace s2 @ put_request s2 dev_id update_data # ext))
         \<and> (\<forall>b3. respond env (Suc (Suc (requests_sent s))) = Api_response 200 b3 \<longrightarrow>
               update_loop env dev_id update_data (Suc (Suc left)) s
                 = Inr (True, s2\<lparr>trace := trace s2 @ [put_request s2 dev_id update_data]\<rparr>))
         \<and> (\<forall>self. ensure_authenticated env self = Inr s
                   \<and> nat (retry_attempts (api_config s)) = Suc (Suc left) \<longrightarrow>
               update_device env self dev_id update_data
                 = update_loop env dev_id update_data (Suc (Suc left)) s)"
proof -
  define s1 where "s1 = s\<lparr>trace := trace s @ [put_request s dev_id update_data]\<rparr>"
  have rs1: "requests_sent s1 = Suc (requests_sent s)" by (simp add: s1_def)
  from authenticate_returns[of env s1] assms(2) obtain ok s2 where
    a: "authenticate env s1 = Inr (ok, s2)" unfolding rs1 by blast
  from authenticate_cases[OF a] have
    t2: "trace s2 = trace s @ [put_request s dev_id update_data, login_request (api_config s)]"
    and c2: "api_config s2 = api_config s" by (simp_all add: s1_def)
  have rs2: "requests_sent s2 = Suc (Suc (requests_sent s))"
    by (simp add: requests_sent_def t2)
  have step: "update_loop env dev_id update_data (Suc (Suc left)) s
               = update_loop env dev_id update_data (Suc left) s2"
    using assms(1) a by (simp add: send_def s1_def bind_res_def)
  have 4: "\<exists>ext. trace s' = trace s2 @ put_request s2 dev_id update_data # ext"
    if "update_loop env dev_id update_data (Suc (Suc left)) s = Inr (ok', s')" for ok' s'
    using update_loop_extends[OF that[unfolded step]] by auto
  have 5: "update_loop env dev_id update_data (Suc (Suc left)) s
                 = Inr (True, s2\<lparr>trace := trace s2 @ [put_request s2 dev_id update_data]\<rparr>)"
    if "respond env (Suc (Suc (requests_sent s))) = Api_response 200 b3" for b3
    unfolding step using that by (simp add: send_def rs2)
  have 6: "update_device env self dev_id update_data
                 = update_loop env dev_id update_data (Suc (Suc left)) s"
    if "ensure_authenticated env self = Inr s \<and> nat (retry_attempts (api_config s)) = Suc (Suc left)"
    for self
    using that by (simp add: update_device_def bind_res_def)
  from a t2 c2 4 5 6 show ?thesis unfolding s1_def by blast
qed


theorem reauthenticates_once_then_retries_witness:
  "update_device
     \<lparr>respond = (\<lambda>n. if n = 0 then Api_response 200 (Inr (JObj [(''token'', JStr ''abc'')]))
                     else if n = 1 then Api_response 401 (Inr (JObj [(''error'', JStr ''expired'')]))
                     else if n = 2 then Api_response 200 (Inr (JObj [(''token'', JStr ''def'')]))
                     else Api_response 200 (Inr (JObj []))),
       clock = (\<lambda>n. 1000)\<rparr>
     (APIClient_init default_api_config) ''device_router_01'' (JObj [(''status'', JStr ''online'')])
   = Inr (True,
          \<lparr>api_config = default_api_config, token = JStr ''def'', token_expires = Some 87100,
            trace = [login_request default_api_config,
                     Http_req ''PUT'' ''http://localhost:5000/api/devices/device_router_01''
                       (Some (JObj [(''status'', JStr ''online'')])) (Some (JStr ''abc'')),
                     login_request default_api_config,
                     Http_req ''PUT'' ''http://localhost:5000/api/devices/device_router_01''
                       (Some (JObj [(''status'', JStr ''online'')])) (Some (JStr ''def''))]\<rparr>)"
proof -
  let ?env = "\<lparr>respond = (\<lambda>n. if n = 0 then Api_response 200 (Inr (JObj [(''token'', JStr ''abc'')]))
                     else if n = 1 then Api_response 401 (Inr (JObj [(''error'', JStr ''expired'')]))
                     else if n = 2 then Api_response 200 (Inr (JObj [(''token'', JStr ''def'')]))
                     else Api_response 200 (Inr (JObj []))),
       clock = (\<lambda>n. 1000)\<rparr>"
  let ?data = "JObj [(''status'', JStr ''online'')]"
  let ?s = "\<lparr>api_config = default_api_config, token = JStr ''abc'', token_expires = Some 87100,
             trace = [login_request default_api_config]\<rparr>"
  let ?put = "Http_req ''PUT'' ''http://localhost:5000/api/devices/device_router_01''
                       (Some ?data) (Some (JStr ''abc''))"
  have e: "ensure_authenticated ?env (APIClient_init default_api_config) = Inr ?s"
    by (simp add: ensure_authenticated_def APIClient_init_def json_truthy_def authenticate_def
        send_def try_except_def bind_res_def requests_sent_def json_getitem_def
        json_get_method_def dict_get_def json_minus_def clock_now_def)
  have p: "put_request ?s ''device_router_01'' ?data = ?put"
    by (simp add: put_request_def get_headers_def json_truthy_def default_api_config_def)
  have r: "requests_sent ?s = 1" by (simp add: requests_sent_def)
  have a: "authenticate ?env (?s\<lparr>trace := trace ?s @ [?put]\<rparr>)
           = Inr (True, \<lparr>api_config = default_api_config, token = JStr ''def'',
                         token_expires = Some 87100,
                         trace = [login_request default_api_config, ?put,
                                  login_request default_api_config]\<rparr>)"
    by (simp add: authenticate_def send_def try_except_def bind_res_def requests_sent_def
        json_getitem_def json_get_method_def dict_get_def json_minus_def clock_now_def)
  let ?s2 = "\<lparr>api_config = default_api_config, token = JStr ''def'',
                         token_expires = Some 87100,
                         trace = [login_request default_api_config, ?put,
                                  login_request default_api_config]\<rparr>"
  have h1: "respond ?env (requests_sent ?s) = Api_response 401 (Inr (JObj [(''error'', JStr ''expired'')]))"
    by (simp add: r)
  have h2: "api_ordinary (respond ?env (Suc (requests_sent ?s)))"
    by (simp add: r)
  from reauthenticates_once_then_retries[OF h1 h2, of "''device_router_01''" ?data 1]
  obtain ok s2 where
    A: "authenticate ?env (?s\<lparr>trace := trace ?s @ [put_request ?s ''device_router_01'' ?data]\<rparr>)
          = Inr (ok, s2)"
    and B: "\<forall>b3. respond ?env (Suc (Suc (requests_sent ?s))) = Api_response 200 b3 \<longrightarrow>
               update_loop ?env ''device_router_01'' ?data (Suc (Suc 1)) ?s
                 = Inr (True, s2\<lparr>trace := trace s2 @ [put_request s2 ''device_router_01'' ?data]\<rparr>)"
    and C: "\<forall>self. ensure_authenticated ?env self = Inr ?s
                   \<and> nat (retry_attempts (api_config ?s)) = Suc (Suc 1) \<longrightarrow>
               update_device ?env self ''device_router_01'' ?data
                 = update_loop ?env ''device_router_01'' ?data (Suc (Suc 1)) ?s"
    by blast
  from A have s2: "s2 = ?s2" unfolding p a by simp
  have "respond ?env (Suc (Suc (requests_sent ?s))) = Api_response 200 (Inr (JObj []))"
    by (simp add: r)
  with B have "update_loop ?env ''device_router_01'' ?data (Suc (Suc 1)) ?s
                 = Inr (True, s2\<lparr>trace := trace s2 @ [put_request s2 ''device_router_01'' ?data]\<rparr>)"
    by blast
  moreover have "nat (retry_attempts (api_config ?s)) = Suc (Suc 1)"
    by (simp add: default_api_config_def)
  with C e have "update_device ?env (APIClient_init default_api_config) ''device_router_01'' ?data
                 = update_loop ?env ''device_router_01'' ?data (Suc (Suc 1)) ?s"
    by blast
  ultimately show ?thesis
    by (simp add: s2 put_request_def get_headers_def json_truthy_def default_api_config_def)
qed

text \<open>
  C6 as first stated fails on the last attempt: with two attempts configured and both
  updates answered 401, the client logs in again after the second 401 as well, but no
  attempt is left, no update follows and the call reports failure.
\<close>

theorem no_retry_after_last_attempt:
  "case update_device
          \<lparr>respond = (\<lambda>n. if n = 1 \<or> n = 3
                          then Api_response 401 (Inr (JObj [(''error'', JStr ''expired'')]))
                          else Api_response 200 (Inr (JObj [(''token'', JStr ''abc'')]))),
            clock = (\<lambda>n. 1000)\<rparr>
          (APIClient_init (default_api_config\<lparr>retry_attempts := 2\<rparr>))
          ''device_router_01'' (JObj [(''status'', JStr ''online'')]) of
     Inl e \<Rightarrow> False
   | Inr (ok, c) \<Rightarrow>
       \<not> ok
       \<and> trace c =
           [login_request (default_api_config\<lparr>retry_attempts := 2\<rparr>),
            Http_req ''PUT'' ''http://localhost:5000/api/devices/device_router_01''
              (Some (JObj [(''status'', JStr ''online'')])) (Some (JStr ''abc'')),
            login_request (default_api_config\<lparr>retry_attempts := 2\<rparr>),
            Http_req ''PUT'' ''http://localhost:5000/api/devices/device_router_01''
              (Some (JObj [(''status'', JStr ''online'')])) (Some (JStr ''abc'')),
            login_request (default_api_config\<lparr>retry_attempts := 2\<rparr>)]"
  by code_simp

end
